theory Spec2Isabelle
  imports Main
begin

section \<open>Python values and exceptions\<close>

text \<open>
  The notebooks raise \<^verbatim>\<open>KeyError\<close> on a missing dictionary key or data-frame column,
  \<^verbatim>\<open>IndexError\<close> on a list index out of range and \<^verbatim>\<open>AttributeError\<close> on a method that
  the object does not have. They are values of the model, so every lookup of the source is
  a branch here.
\<close>

datatype error = KeyError string | IndexError | AttributeError string

text \<open>
  Dataset names are ASCII strings. \<^verbatim>\<open>str.lower()\<close> maps the letters \<^verbatim>\<open>A\<close> .. \<^verbatim>\<open>Z\<close>
  (codes 65 .. 90) to \<^verbatim>\<open>a\<close> .. \<^verbatim>\<open>z\<close> (the code plus 32, that is, bit 5 set) and leaves
  every other ASCII character as it is.
\<close>

fun lower_char :: "char \<Rightarrow> char" where
  "lower_char (Char b0 b1 b2 b3 b4 b5 b6 b7) =
     (let n = (of_char (Char b0 b1 b2 b3 b4 b5 b6 b7) :: nat)
      in if 65 \<le> n \<and> n \<le> 90 then Char b0 b1 b2 b3 b4 True b6 b7
         else Char b0 b1 b2 b3 b4 b5 b6 b7)"

definition lower :: "string \<Rightarrow> string" where
  "lower s = map lower_char s"

text \<open>
  \<^verbatim>\<open>s.split(sep)\<close> for a one-character separator: the fields between the occurrences of
  the separator, of which there is always at least one (\<^verbatim>\<open>"".split("/") == [""]\<close>).
\<close>

fun split_str :: "char \<Rightarrow> string \<Rightarrow> string list" where
  "split_str sep [] = [[]]"
| "split_str sep (c # cs) =
     (if c = sep then [] # split_str sep cs
      else (case split_str sep cs of
              [] \<Rightarrow> [[c]]
            | w # ws \<Rightarrow> (c # w) # ws))"

text \<open>\<^verbatim>\<open>xs[i]\<close> for the literal indices 0 and 1 the notebooks use.\<close>

definition index :: "'a list \<Rightarrow> nat \<Rightarrow> error + 'a" where
  "index xs i = (if i < length xs then Inr (xs ! i) else Inl IndexError)"

text \<open>\<^verbatim>\<open>d[k]\<close> and \<^verbatim>\<open>d.get(k, default)\<close> on a dictionary with string keys.\<close>

definition getitem :: "(string \<rightharpoonup> 'a) \<Rightarrow> string \<Rightarrow> error + 'a" where
  "getitem d k = (case d k of None \<Rightarrow> Inl (KeyError k) | Some v \<Rightarrow> Inr v)"

definition get_default :: "(string \<rightharpoonup> 'a) \<Rightarrow> string \<Rightarrow> 'a \<Rightarrow> 'a" where
  "get_default d k dflt = (case d k of None \<Rightarrow> dflt | Some v \<Rightarrow> v)"

text \<open>
  A list display \<^verbatim>\<open>[e1, ..., en]\<close> evaluates its elements from left to right; the first
  one that raises aborts the display.
\<close>

fun sequence :: "(error + 'a) list \<Rightarrow> error + 'a list" where
  "sequence [] = Inr []"
| "sequence (r # rs) =
     (case r of
        Inl e \<Rightarrow> Inl e
      | Inr x \<Rightarrow> (case sequence rs of Inl e \<Rightarrow> Inl e | Inr xs \<Rightarrow> Inr (x # xs)))"

section \<open>Dataset keys\<close>

text \<open>The table \<^verbatim>\<open>pretty_names\<close> of \<^verbatim>\<open>dataset_info.ipynb\<close> and of the model notebooks.\<close>

definition pretty_names :: "string \<rightharpoonup> string" where
  "pretty_names =
     map_of
       [(''saugeenday'', ''saugeen''),
        (''temperature_rain_with_missing'', ''temperature_rain''),
        (''kdd_cup_2018_with_missing'', ''kdd_cup_2018''),
        (''car_parts_with_missing'', ''car_parts'')]"

text \<open>
  \<^verbatim>\<open>get_key\<close> of \<^verbatim>\<open>dataset_info.ipynb\<close>:
  \<^verbatim>\<open>
  key = name.split("/")[0] if "/" in name else name
  key = key.lower()
  return pretty_names.get(key, key)
  \<close>
\<close>

definition get_key :: "string \<Rightarrow> error + string" where
  "get_key name =
     (case (if CHR ''/'' \<in> set name then index (split_str (CHR ''/'') name) 0 else Inr name) of
        Inl e \<Rightarrow> Inl e
      | Inr key \<Rightarrow> Inr (get_default pretty_names (lower key) (lower key)))"

text \<open>
  \<^verbatim>\<open>get_dataset_key\<close> of the feed-forward and Moirai notebooks:
  \<^verbatim>\<open>
  return dataset_name.split("/")[0] if "/" in dataset_name else dataset_name.lower()
  \<close>
\<close>

definition get_dataset_key :: "string \<Rightarrow> error + string" where
  "get_dataset_key dataset_name =
     (if CHR ''/'' \<in> set dataset_name then index (split_str (CHR ''/'') dataset_name) 0
      else Inr (lower dataset_name))"

text \<open>
  The file \<^verbatim>\<open>dataset_properties.json\<close> is read with \<^verbatim>\<open>json.load\<close> and is not among the
  sources; it is a parameter here. The notebooks read three fields of an entry.
\<close>

record properties =
  frequency :: string
  domain :: string
  num_variates :: int

type_synonym properties_map = "string \<rightharpoonup> properties"

text \<open>
  \<^verbatim>\<open>
  def get_dataset_freq(dataset_name):
      key = get_dataset_key(dataset_name)
      return (dataset_name.split("/")[1] if "/" in dataset_name
              else dataset_properties_map[key]["frequency"])
  \<close>
\<close>

definition get_dataset_freq :: "properties_map \<Rightarrow> string \<Rightarrow> error + string" where
  "get_dataset_freq dataset_properties_map dataset_name =
     (case get_dataset_key dataset_name of
        Inl e \<Rightarrow> Inl e
      | Inr key \<Rightarrow>
          (if CHR ''/'' \<in> set dataset_name then index (split_str (CHR ''/'') dataset_name) 1
           else (case getitem dataset_properties_map key of
                   Inl e \<Rightarrow> Inl e
                 | Inr p \<Rightarrow> Inr (frequency p))))"

text \<open>
  \<^verbatim>\<open>
  def get_dataset_config(dataset_name, term):
      key = get_dataset_key(dataset_name)
      freq = get_dataset_freq(dataset_name)
      return f"{key}/{freq}/{term}"
  \<close>
\<close>

definition get_dataset_config :: "properties_map \<Rightarrow> string \<Rightarrow> string \<Rightarrow> error + string" where
  "get_dataset_config dataset_properties_map dataset_name term =
     (case get_dataset_key dataset_name of
        Inl e \<Rightarrow> Inl e
      | Inr key \<Rightarrow>
          (case get_dataset_freq dataset_properties_map dataset_name of
             Inl e \<Rightarrow> Inl e
           | Inr freq \<Rightarrow> Inr (key @ ''/'' @ freq @ ''/'' @ term)))"

section \<open>Result files\<close>

text \<open>
  A CSV file is the list of the rows handed to \<^verbatim>\<open>csv.writer.writerow\<close>, in file order; a row
  is the list of its fields. How the library prints a field is not part of the notebooks. Metric
  values are of an arbitrary type \<open>'v\<close>: the notebooks only move them.
\<close>

datatype 'v field = FStr string | FMetric 'v | FInt int

type_synonym 'v row = "'v field list"

type_synonym 'v files = "string \<rightharpoonup> 'v row list"

text \<open>
  The value returned by \<^verbatim>\<open>evaluate_model\<close>: a table with one column per metric;
  \<^verbatim>\<open>results[M][0]\<close> is the first entry of column \<^verbatim>\<open>M\<close>.
\<close>

type_synonym 'v results = "string \<rightharpoonup> 'v list"

definition metric_value :: "'v results \<Rightarrow> string \<Rightarrow> error + 'v" where
  "metric_value results m =
     (case getitem results m of Inl e \<Rightarrow> Inl e | Inr col \<Rightarrow> index col 0)"

definition fmetric :: "error + 'v \<Rightarrow> error + 'v field" where
  "fmetric r = (case r of Inl e \<Rightarrow> Inl e | Inr v \<Rightarrow> Inr (FMetric v))"

text \<open>The eleven metric columns, in the order of the header and of every row.\<close>

definition metric_names :: "string list" where
  "metric_names =
     [''MSE[mean]'', ''MSE[0.5]'', ''MAE[0.5]'', ''MASE[0.5]'', ''MAPE[0.5]'', ''sMAPE[0.5]'',
      ''MSIS'', ''RMSE[mean]'', ''NRMSE[mean]'', ''ND[0.5]'',
      ''mean_weighted_sum_quantile_loss'']"

text \<open>The header row every notebook writes when it initialises its result file.\<close>

definition header :: "'v row" where
  "header =
     [FStr ''dataset'',
      FStr ''model'',
      FStr ''eval_metrics/MSE[mean]'',
      FStr ''eval_metrics/MSE[0.5]'',
      FStr ''eval_metrics/MAE[0.5]'',
      FStr ''eval_metrics/MASE[0.5]'',
      FStr ''eval_metrics/MAPE[0.5]'',
      FStr ''eval_metrics/sMAPE[0.5]'',
      FStr ''eval_metrics/MSIS'',
      FStr ''eval_metrics/RMSE[mean]'',
      FStr ''eval_metrics/NRMSE[mean]'',
      FStr ''eval_metrics/ND[0.5]'',
      FStr ''eval_metrics/mean_weighted_sum_quantile_loss'',
      FStr ''domain'',
      FStr ''num_variates'']"

text \<open>
  The list display passed to \<^verbatim>\<open>writerow\<close> for a result. It is the same in
  \<^verbatim>\<open>write_to_csv\<close> and in the inline loops of the Chronos, Moirai and feed-forward
  notebooks, up to the model name and the names of the variables.
\<close>

definition result_row ::
  "properties_map \<Rightarrow> string \<Rightarrow> string \<Rightarrow> 'v results \<Rightarrow> string \<Rightarrow> error + 'v row" where
  "result_row dataset_properties_map dataset_config model_name results key =
     sequence
       [Inr (FStr dataset_config),
        Inr (FStr model_name),
        fmetric (metric_value results ''MSE[mean]''),
        fmetric (metric_value results ''MSE[0.5]''),
        fmetric (metric_value results ''MAE[0.5]''),
        fmetric (metric_value results ''MASE[0.5]''),
        fmetric (metric_value results ''MAPE[0.5]''),
        fmetric (metric_value results ''sMAPE[0.5]''),
        fmetric (metric_value results ''MSIS''),
        fmetric (metric_value results ''RMSE[mean]''),
        fmetric (metric_value results ''NRMSE[mean]''),
        fmetric (metric_value results ''ND[0.5]''),
        fmetric (metric_value results ''mean_weighted_sum_quantile_loss''),
        (case getitem dataset_properties_map key of
           Inl e \<Rightarrow> Inl e | Inr p \<Rightarrow> Inr (FStr (domain p))),
        (case getitem dataset_properties_map key of
           Inl e \<Rightarrow> Inl e | Inr p \<Rightarrow> Inr (FInt (num_variates p)))]"

text \<open>
  \<^verbatim>\<open>open(path, "w")\<close> truncates or creates the file, \<^verbatim>\<open>open(path, "a")\<close> creates it
  when it is missing and keeps its content otherwise; \<^verbatim>\<open>writerow\<close> writes at the end.
\<close>

definition open_write :: "'v files \<Rightarrow> string \<Rightarrow> 'v files" where
  "open_write fs path = fs(path \<mapsto> [])"

definition open_append :: "'v files \<Rightarrow> string \<Rightarrow> 'v files" where
  "open_append fs path = (case fs path of None \<Rightarrow> fs(path \<mapsto> []) | Some rows \<Rightarrow> fs)"

definition writerow :: "'v files \<Rightarrow> string \<Rightarrow> 'v row \<Rightarrow> 'v files" where
  "writerow fs path row =
     (case fs path of None \<Rightarrow> fs(path \<mapsto> [row]) | Some rows \<Rightarrow> fs(path \<mapsto> rows @ [row]))"

definition init_csv :: "'v files \<Rightarrow> string \<Rightarrow> 'v files" where
  "init_csv fs path = writerow (open_write fs path) path header"

text \<open>
  \<^verbatim>\<open>
  def write_to_csv(results, csv_file_path, term, dataset_name):
      dataset_config = get_dataset_config(dataset_name, term)
      with open(csv_file_path, "a", newline="") as csvfile:
          key = get_dataset_key(dataset_name)
          writer = csv.writer(csvfile)
          writer.writerow([dataset_config, "feedforward", results["MSE[mean]"][0], ...,
                           dataset_properties_map[key]["domain"],
                           dataset_properties_map[key]["num_variates"]])
  \<close>
  The function returns the exception it raised, if any, and the files it leaves behind.
\<close>

definition write_to_csv ::
  "properties_map \<Rightarrow> 'v results \<Rightarrow> string \<Rightarrow> string \<Rightarrow> string \<Rightarrow> 'v files
     \<Rightarrow> error option \<times> 'v files" where
  "write_to_csv dataset_properties_map results csv_file_path term dataset_name fs =
     (case get_dataset_config dataset_properties_map dataset_name term of
        Inl e \<Rightarrow> (Some e, fs)
      | Inr dataset_config \<Rightarrow>
          (let fs1 = open_append fs csv_file_path
           in case get_dataset_key dataset_name of
                Inl e \<Rightarrow> (Some e, fs1)
              | Inr key \<Rightarrow>
                  (case result_row dataset_properties_map dataset_config ''feedforward''
                          results key of
                     Inl e \<Rightarrow> (Some e, fs1)
                   | Inr row \<Rightarrow> (None, writerow fs1 csv_file_path row))))"

section \<open>Evaluation loops\<close>

text \<open>
  What a notebook run depends on: the dataset lists of its first cell, the properties file,
  and the two libraries it calls. \<open>target_dim env name term\<close> is
  \<^verbatim>\<open>Dataset(name=name, term=term, to_univariate=False).target_dim\<close>, and
  \<open>evaluate_model env name term u\<close> is what \<^verbatim>\<open>evaluate_model\<close> returns on the test data of
  \<^verbatim>\<open>Dataset(name=name, term=term, to_univariate=u)\<close>. Both libraries are taken to return;
  the exceptions of the model are those the code of the notebooks raises itself.
\<close>

record 'v env =
  all_datasets :: "string list"
  med_long_datasets :: "string list"
  dataset_properties_map :: properties_map
  target_dim :: "string \<Rightarrow> string \<Rightarrow> int"
  evaluate_model :: "string \<Rightarrow> string \<Rightarrow> bool \<Rightarrow> 'v results"
  csv_file_path :: string

text \<open>
  The state of a run: the files, and the log of the calls of \<^verbatim>\<open>evaluate_model\<close>, each
  with the name, the term and the \<^verbatim>\<open>to_univariate\<close> flag of the dataset evaluated.
\<close>

record 'v state =
  files :: "'v files"
  evaluated :: "(string \<times> string \<times> bool) list"

definition terms :: "string list" where
  "terms = [''short'', ''medium'', ''long'']"

text \<open>A \<^verbatim>\<open>for\<close> loop whose body may raise: the first exception ends the loop.\<close>

fun for_each :: "('a \<Rightarrow> 's \<Rightarrow> error option \<times> 's) \<Rightarrow> 'a list \<Rightarrow> 's \<Rightarrow> error option \<times> 's" where
  "for_each body [] s = (None, s)"
| "for_each body (x # xs) s =
     (case body x s of
        (Some e, s') \<Rightarrow> (Some e, s')
      | (None, s') \<Rightarrow> for_each body xs s')"

text \<open>
  The key and the frequency as the inline loops compute them:
  \<^verbatim>\<open>
  if "/" in ds_name:
      ds_key = ds_name.split("/")[0]
      ds_freq = ds_name.split("/")[1]
      ds_key = ds_key.lower()
      ds_key = pretty_names.get(ds_key, ds_key)
  else:
      ds_key = ds_name.lower()
      ds_key = pretty_names.get(ds_key, ds_key)
      ds_freq = dataset_properties_map[ds_key]["frequency"]
  \<close>
\<close>

definition ds_key_freq :: "properties_map \<Rightarrow> string \<Rightarrow> error + string \<times> string" where
  "ds_key_freq props ds_name =
     (if CHR ''/'' \<in> set ds_name then
        (case index (split_str (CHR ''/'') ds_name) 0 of
           Inl e \<Rightarrow> Inl e
         | Inr k \<Rightarrow>
             (case index (split_str (CHR ''/'') ds_name) 1 of
                Inl e \<Rightarrow> Inl e
              | Inr ds_freq \<Rightarrow> Inr (get_default pretty_names (lower k) (lower k), ds_freq)))
      else
        (let ds_key = get_default pretty_names (lower ds_name) (lower ds_name)
         in case getitem props ds_key of
              Inl e \<Rightarrow> Inl e
            | Inr p \<Rightarrow> Inr (ds_key, frequency p)))"

text \<open>
  The flag \<^verbatim>\<open>to_univariate\<close> of the Chronos notebook and of the inline feed-forward loop,
  \<^verbatim>\<open>False if Dataset(...).target_dim == 1 else True\<close>,
  and of the Moirai notebook, where that line is commented out and the flag is
  \<^verbatim>\<open>to_univariate = False\<close>.
\<close>

definition chronos_to_univariate :: "int \<Rightarrow> bool" where
  "chronos_to_univariate td = (if td = 1 then False else True)"

definition moirai_to_univariate :: "int \<Rightarrow> bool" where
  "moirai_to_univariate td = False"

text \<open>
  The body of the inner loop of the inline evaluation cells (Chronos, Moirai, feed-forward),
  for one dataset name and one term. The cells differ in the model name they write and in
  \<^verbatim>\<open>to_univariate\<close>, which are parameters here. The second version of the Moirai notebook
  is apart, below.
\<close>

definition evaluation_step ::
  "string \<Rightarrow> (int \<Rightarrow> bool) \<Rightarrow> 'v env \<Rightarrow> string \<Rightarrow> string \<Rightarrow> 'v state
     \<Rightarrow> error option \<times> 'v state" where
  "evaluation_step model_name to_univ env ds_name term st =
     (if (term = ''medium'' \<or> term = ''long'') \<and> ds_name \<notin> set (med_long_datasets env)
      then (None, st)
      else
        (case ds_key_freq (dataset_properties_map env) ds_name of
           Inl e \<Rightarrow> (Some e, st)
         | Inr (ds_key, ds_freq) \<Rightarrow>
             (let ds_config = ds_key @ ''/'' @ ds_freq @ ''/'' @ term;
                  to_univariate = to_univ (target_dim env ds_name term);
                  res = evaluate_model env ds_name term to_univariate;
                  st1 = st\<lparr>evaluated := evaluated st @ [(ds_name, term, to_univariate)]\<rparr>;
                  st2 = st1\<lparr>files := open_append (files st1) (csv_file_path env)\<rparr>
              in case result_row (dataset_properties_map env) ds_config model_name res ds_key of
                   Inl e \<Rightarrow> (Some e, st2)
                 | Inr row \<Rightarrow>
                     (None, st2\<lparr>files := writerow (files st2) (csv_file_path env) row\<rparr>))))"

definition evaluation_loop ::
  "string \<Rightarrow> (int \<Rightarrow> bool) \<Rightarrow> 'v env \<Rightarrow> 'v state \<Rightarrow> error option \<times> 'v state" where
  "evaluation_loop model_name to_univ env =
     for_each (\<lambda>ds_name. for_each (\<lambda>term. evaluation_step model_name to_univ env ds_name term) terms)
       (all_datasets env)"

definition chronos_loop :: "'v env \<Rightarrow> 'v state \<Rightarrow> error option \<times> 'v state" where
  "chronos_loop = evaluation_loop ''chronos_bolt_base'' chronos_to_univariate"

text \<open>
  In the Chronos notebook, in the first version of the Moirai notebook and in the inline
  cell of the feed-forward notebook the variable \<^verbatim>\<open>med_long_datasets\<close> is a string of
  names, and \<^verbatim>\<open>med_long_datasets.split()\<close> is the list of these names: the field
  \<open>med_long_datasets\<close> of the environment.
\<close>

definition moirai_loop :: "'v env \<Rightarrow> 'v state \<Rightarrow> error option \<times> 'v state" where
  "moirai_loop = evaluation_loop ''moirai_small'' moirai_to_univariate"

text \<open>
  The second version of the Moirai notebook, in the same file, has the same inline cell,
  but its first cell binds \<^verbatim>\<open>med_long_datasets = set(med_long_dataset_names.split())\<close>.
  A set has no method \<^verbatim>\<open>split\<close>, so there \<^verbatim>\<open>med_long_datasets.split()\<close> raises
  \<^verbatim>\<open>AttributeError\<close> whenever it is evaluated.
\<close>

definition set_split :: "string list \<Rightarrow> error + string list" where
  "set_split names = Inl (AttributeError ''split'')"

text \<open>
  The test at the head of the inner loop,
  \<^verbatim>\<open>
  if (term == "medium" or term == "long") and ds_name not in med_long_datasets.split():
      continue
  \<close>
  evaluates its right operand only when the left one is true. The rest of the body is that
  of the first version, with the model name \<^verbatim>\<open>moirai_small\<close> and \<^verbatim>\<open>to_univariate = False\<close>.
\<close>

definition moirai_set_step ::
  "'v env \<Rightarrow> string \<Rightarrow> string \<Rightarrow> 'v state \<Rightarrow> error option \<times> 'v state" where
  "moirai_set_step env ds_name term st =
     (case (if term = ''medium'' \<or> term = ''long''
            then (case set_split (med_long_datasets env) of
                    Inl e \<Rightarrow> Inl e
                  | Inr names \<Rightarrow> Inr (ds_name \<notin> set names))
            else Inr False) of
        Inl e \<Rightarrow> (Some e, st)
      | Inr skip \<Rightarrow>
          (if skip then (None, st)
           else
             (case ds_key_freq (dataset_properties_map env) ds_name of
                Inl e \<Rightarrow> (Some e, st)
              | Inr (ds_key, ds_freq) \<Rightarrow>
                  (let ds_config = ds_key @ ''/'' @ ds_freq @ ''/'' @ term;
                       to_univariate = False;
                       res = evaluate_model env ds_name term to_univariate;
                       st1 = st\<lparr>evaluated := evaluated st @ [(ds_name, term, to_univariate)]\<rparr>;
                       st2 = st1\<lparr>files := open_append (files st1) (csv_file_path env)\<rparr>
                   in case result_row (dataset_properties_map env) ds_config ''moirai_small''
                             res ds_key of
                        Inl e \<Rightarrow> (Some e, st2)
                      | Inr row \<Rightarrow>
                          (None,
                           st2\<lparr>files := writerow (files st2) (csv_file_path env) row\<rparr>)))))"

definition moirai_set_loop :: "'v env \<Rightarrow> 'v state \<Rightarrow> error option \<times> 'v state" where
  "moirai_set_loop env =
     for_each (\<lambda>ds_name. for_each (\<lambda>term. moirai_set_step env ds_name term) terms)
       (all_datasets env)"

text \<open>
  The inline loop of the feed-forward notebook, which trains a model per dataset, has the
  flag of the Chronos notebook.
\<close>

definition feedforward_loop :: "'v env \<Rightarrow> 'v state \<Rightarrow> error option \<times> 'v state" where
  "feedforward_loop = evaluation_loop ''feedforward'' chronos_to_univariate"

text \<open>
  The feed-forward notebook with one model trained on the combined data:
  \<^verbatim>\<open>
  def check_if_multivariate(dataset_name, term):
      target_dimension = Dataset(name=dataset_name, term=term, to_univariate=False).target_dim
      return target_dimension > 1
  \<close>
\<close>

definition check_if_multivariate :: "'v env \<Rightarrow> string \<Rightarrow> string \<Rightarrow> bool" where
  "check_if_multivariate env dataset_name term = (target_dim env dataset_name term > 1)"

text \<open>
  \<^verbatim>\<open>combine_datasets\<close> collects the training and validation data of the datasets it
  constructs; the model keeps which datasets those are, in order.
\<close>

definition combine_step :: "'v env \<Rightarrow> string \<Rightarrow> string \<Rightarrow> (string \<times> string \<times> bool) list
    \<Rightarrow> (string \<times> string \<times> bool) list" where
  "combine_step env dataset_name term combined =
     (let term_is_not_short = (term \<noteq> ''short'');
          dataset_is_short = (dataset_name \<notin> set (med_long_datasets env))
      in if term_is_not_short \<and> dataset_is_short then combined
         else
           (let is_multivariate = check_if_multivariate env dataset_name term;
                to_univariate = (if is_multivariate then True else False)
            in combined @ [(dataset_name, term, to_univariate)]))"

definition combine_datasets :: "'v env \<Rightarrow> (string \<times> string \<times> bool) list" where
  "combine_datasets env =
     fold (\<lambda>dataset_name. fold (\<lambda>term. combine_step env dataset_name term) terms)
       (all_datasets env) []"

text \<open>
  \<^verbatim>\<open>
  def perform_inference(predictor, term, dataset_name):
      is_multivariate = check_if_multivariate(dataset_name, term)
      to_univariate = True if is_multivariate else False
      dataset = Dataset(name=dataset_name, term=term, to_univariate=to_univariate)
      ...
      results = evaluate_model(predictor, test_data=dataset.test_data, ...)
      return results
  \<close>
\<close>

definition perform_inference ::
  "'v env \<Rightarrow> string \<Rightarrow> string \<Rightarrow> 'v state \<Rightarrow> 'v results \<times> 'v state" where
  "perform_inference env term dataset_name st =
     (let is_multivariate = check_if_multivariate env dataset_name term;
          to_univariate = (if is_multivariate then True else False);
          results = evaluate_model env dataset_name term to_univariate
      in (results, st\<lparr>evaluated := evaluated st @ [(dataset_name, term, to_univariate)]\<rparr>))"

text \<open>
  \<^verbatim>\<open>
  for term in terms:
      for dataset_name in all_dataset_names:
          # Only perform inference on datasets where prediction length is 48
          if term != "short":
              continue
          results = perform_inference(predictor, term, dataset_name)
          write_to_csv(results, csv_file_path, term, dataset_name)
  \<close>
\<close>

definition inference_step ::
  "'v env \<Rightarrow> string \<Rightarrow> string \<Rightarrow> 'v state \<Rightarrow> error option \<times> 'v state" where
  "inference_step env term dataset_name st =
     (if term \<noteq> ''short'' then (None, st)
      else
        (case perform_inference env term dataset_name st of
           (results, st1) \<Rightarrow>
             (case write_to_csv (dataset_properties_map env) results (csv_file_path env) term
                     dataset_name (files st1) of
                (r, fs) \<Rightarrow> (r, st1\<lparr>files := fs\<rparr>))))"

definition inference_loop :: "'v env \<Rightarrow> 'v state \<Rightarrow> error option \<times> 'v state" where
  "inference_loop env =
     for_each (\<lambda>term. for_each (\<lambda>dataset_name. inference_step env term dataset_name)
                 (all_datasets env))
       terms"

section \<open>Cluster job scripts\<close>

text \<open>
  The array job that loads the pretraining datasets computes, from its task id and the number
  of dataset directories,
  \<^verbatim>\<open>
  term_index=$((SLURM_ARRAY_TASK_ID / num_names))
  name_index=$((SLURM_ARRAY_TASK_ID % num_names))
  \<close>
  Task ids and counts are not negative and far below \<open>2^63\<close>, so shell arithmetic on them is
  that of the natural numbers; a division by zero is an error of the shell, \<open>None\<close> here.
\<close>

definition term_index :: "nat \<Rightarrow> nat \<Rightarrow> nat option" where
  "term_index task_id num_names =
     (if num_names = 0 then None else Some (task_id div num_names))"

definition name_index :: "nat \<Rightarrow> nat \<Rightarrow> nat option" where
  "name_index task_id num_names =
     (if num_names = 0 then None else Some (task_id mod num_names))"

definition task_indices :: "nat \<Rightarrow> nat \<Rightarrow> (nat \<times> nat) option" where
  "task_indices num_names task_id =
     (case term_index task_id num_names of
        None \<Rightarrow> None
      | Some ti \<Rightarrow>
          (case name_index task_id num_names of
             None \<Rightarrow> None
           | Some ni \<Rightarrow> Some (ti, ni)))"

text \<open>\<^verbatim>\<open>${xs[$i]}\<close>: an index past the end of the array expands to the empty string.\<close>

definition array_elem :: "string list \<Rightarrow> nat \<Rightarrow> string" where
  "array_elem xs i = (if i < length xs then xs ! i else [])"

text \<open>
  \<^verbatim>\<open>
  terms=("short" "medium" "long")
  term=${terms[$term_index]}
  name=${names[$name_index]}
  \<close>
\<close>

definition task_pair :: "string list \<Rightarrow> nat \<Rightarrow> (string \<times> string) option" where
  "task_pair names task_id =
     (case task_indices (length names) task_id of
        None \<Rightarrow> None
      | Some (ti, ni) \<Rightarrow> Some (array_elem terms ti, array_elem names ni))"

text \<open>
  The variables a job gets from the scheduler (an unset variable is the empty string) and
  the time stamp \<^verbatim>\<open>get_timestamp\<close> prints, which the model takes as given.
\<close>

record job_env =
  job_name :: string
  job_id :: string
  array_job_id :: string
  array_task_id :: string
  timestamp :: string

text \<open>What a script changes: directories, files (a file is its lines) and the two streams.\<close>

record shell =
  dirs :: "string set"
  file_lines :: "string \<rightharpoonup> string list"
  stdout :: "string list"
  stderr :: "string list"

definition log_info :: "job_env \<Rightarrow> string \<Rightarrow> shell \<Rightarrow> shell" where
  "log_info env msg sh = sh\<lparr>stdout := stdout sh @ [''['' @ timestamp env @ ''] '' @ msg]\<rparr>"

definition log_error :: "job_env \<Rightarrow> string \<Rightarrow> shell \<Rightarrow> shell" where
  "log_error env msg sh = sh\<lparr>stderr := stderr sh @ [''['' @ timestamp env @ ''] '' @ msg]\<rparr>"

text \<open>
  \<^verbatim>\<open>
  get_done_dir() {
      local base_dir="./logs/${SLURM_JOB_NAME}/done"
      if [[ -n "$SLURM_ARRAY_JOB_ID" ]]; then done_dir="${base_dir}/${SLURM_ARRAY_JOB_ID}"
      else done_dir="$base_dir"; fi
      mkdir -p "$done_dir"
      echo "$done_dir"
  }
  \<close>
\<close>

definition get_done_dir :: "job_env \<Rightarrow> shell \<Rightarrow> string \<times> shell" where
  "get_done_dir env sh =
     (let base_dir = ''./logs/'' @ job_name env @ ''/done'';
          done_dir = (if array_job_id env \<noteq> [] then base_dir @ ''/'' @ array_job_id env
                      else base_dir)
      in (done_dir, sh\<lparr>dirs := insert done_dir (dirs sh)\<rparr>))"

definition touch :: "string \<Rightarrow> shell \<Rightarrow> shell" where
  "touch path sh =
     (case file_lines sh path of
        None \<Rightarrow> sh\<lparr>file_lines := (file_lines sh)(path \<mapsto> [])\<rparr>
      | Some ls \<Rightarrow> sh)"

text \<open>
  \<^verbatim>\<open>
  get_done_file() {
      done_dir=$(get_done_dir)
      if [[ -n "$SLURM_ARRAY_JOB_ID" ]]; then done_file="${SLURM_ARRAY_TASK_ID}.done"
      else done_file="${SLURM_JOB_ID}.done"; fi
      local done_path="${done_dir}/${done_file}"
      touch "$done_path"
      echo "$done_path"
  }
  \<close>
\<close>

definition get_done_file :: "job_env \<Rightarrow> shell \<Rightarrow> string \<times> shell" where
  "get_done_file env sh =
     (case get_done_dir env sh of
        (done_dir, sh1) \<Rightarrow>
          (let done_file = (if array_job_id env \<noteq> [] then array_task_id env @ ''.done''
                            else job_id env @ ''.done'');
               done_path = done_dir @ ''/'' @ done_file
           in (done_path, touch done_path sh1)))"

text \<open>\<^verbatim>\<open>echo "$line" >"$path"\<close> replaces the content of the file by one line.\<close>

definition echo_to :: "string \<Rightarrow> string \<Rightarrow> shell \<Rightarrow> shell" where
  "echo_to path line sh = sh\<lparr>file_lines := (file_lines sh)(path \<mapsto> [line])\<rparr>"

text \<open>
  The end of both loading scripts, from the exit status of the \<^verbatim>\<open>python\<close> command on:
  \<^verbatim>\<open>
  if python load_dataset.py --name "$name" --term "$term"; then
      log_info "Successfully loaded $message!"
      log_error "No errors!"
      done_file=$(get_done_file)
      end_time=$(get_timestamp)
      echo "[${end_time}] Finished loading $message!" >"$done_file"
  else
      log_error "ERROR: Failed to load $message!"
      exit 1
  fi
  \<close>
  The result is the exit status of the script and what it leaves behind; what the
  \<^verbatim>\<open>python\<close> command itself writes is not part of the script. The three texts differ
  between the two scripts and are parameters.
\<close>

definition finish_job ::
  "string \<Rightarrow> string \<Rightarrow> string \<Rightarrow> job_env \<Rightarrow> nat \<Rightarrow> shell \<Rightarrow> nat \<times> shell" where
  "finish_job ok_text done_text error_text env python_status sh =
     (if python_status = 0 then
        (let sh1 = log_info env ok_text sh;
             sh2 = log_error env ''No errors!'' sh1
         in case get_done_file env sh2 of
              (done_file, sh3) \<Rightarrow>
                (let end_time = timestamp env
                 in (0, echo_to done_file (''['' @ end_time @ ''] '' @ done_text) sh3)))
      else (1, log_error env error_text sh))"

text \<open>The array job over names and terms; \<open>message\<close> is the text the script builds before.\<close>

definition load_datasets_job :: "string \<Rightarrow> job_env \<Rightarrow> nat \<Rightarrow> shell \<Rightarrow> nat \<times> shell" where
  "load_datasets_job message =
     finish_job (''Successfully loaded '' @ message @ ''!'')
       (''Finished loading '' @ message @ ''!'')
       (''ERROR: Failed to load '' @ message @ ''!'')"

text \<open>\<^verbatim>\<open>scripts/run_load_dataset.sh\<close>, the array job over names only.\<close>

definition run_load_dataset :: "job_env \<Rightarrow> nat \<Rightarrow> shell \<Rightarrow> nat \<times> shell" where
  "run_load_dataset env =
     finish_job (''Successfully finished '' @ job_name env @ ''!'')
       (''Done with '' @ job_name env @ ''!'')
       (''ERROR: '' @ job_name env @ ''!'')
       env"

text \<open>The path of the marker file of a job.\<close>

definition done_path :: "job_env \<Rightarrow> string" where
  "done_path env =
     (if array_job_id env \<noteq> []
      then ''./logs/'' @ job_name env @ ''/done/'' @ array_job_id env @ ''/''
             @ array_task_id env @ ''.done''
      else ''./logs/'' @ job_name env @ ''/done/'' @ job_id env @ ''.done'')"

section \<open>Notions used in the statements\<close>

text \<open>
  The part of a string before the first occurrence of a character, and the part after it
  (when the character occurs).
\<close>

definition before_first :: "char \<Rightarrow> string \<Rightarrow> string" where
  "before_first sep s = takeWhile (\<lambda>c. c \<noteq> sep) s"

definition after_first :: "char \<Rightarrow> string \<Rightarrow> string" where
  "after_first sep s = tl (dropWhile (\<lambda>c. c \<noteq> sep) s)"

text \<open>
  A dataset name is the name of a dataset directory, or that name, a \<^verbatim>\<open>/\<close> and a
  frequency, as in the lists of the notebooks: it has at most one \<^verbatim>\<open>/\<close>.
\<close>

definition dataset_name_form :: "string \<Rightarrow> bool" where
  "dataset_name_form name = (length (filter (\<lambda>c. c = CHR ''/'') name) \<le> 1)"

text \<open>The rows of a file; a file that does not exist has none.\<close>

definition file_rows :: "'v files \<Rightarrow> string \<Rightarrow> 'v row list" where
  "file_rows fs path = (case fs path of None \<Rightarrow> [] | Some rows \<Rightarrow> rows)"

text \<open>
  How a loading script ends. After a run that finished, the exit status is 0 and the marker
  file holds the one line the script writes. After a run that failed, the exit status is 1,
  no file or directory has changed, and standard error has grown by the error line.
\<close>

definition finished_with :: "job_env \<Rightarrow> string \<Rightarrow> nat \<times> shell \<Rightarrow> bool" where
  "finished_with env text r =
     (fst r = 0 \<and> file_lines (snd r) (done_path env) = Some [''['' @ timestamp env @ ''] '' @ text])"

definition failed_with :: "job_env \<Rightarrow> string \<Rightarrow> shell \<Rightarrow> nat \<times> shell \<Rightarrow> bool" where
  "failed_with env text sh r =
     (fst r = 1 \<and> file_lines (snd r) = file_lines sh \<and> dirs (snd r) = dirs sh
      \<and> stdout (snd r) = stdout sh
      \<and> stderr (snd r) = stderr sh @ [''['' @ timestamp env @ ''] '' @ text])"

text \<open>
  The fields of a result row and of the header row, from their parts: the configuration
  and the model, the metrics in their order, the domain and the number of variates.
\<close>

definition row_of :: "string \<Rightarrow> string \<Rightarrow> 'v list \<Rightarrow> properties \<Rightarrow> 'v row" where
  "row_of config model vs p =
     [FStr config, FStr model] @ map FMetric vs @ [FStr (domain p), FInt (num_variates p)]"

definition header_of :: "string list \<Rightarrow> 'v row" where
  "header_of ms =
     [FStr ''dataset'', FStr ''model''] @ map (\<lambda>m. FStr (''eval_metrics/'' @ m)) ms
       @ [FStr ''domain'', FStr ''num_variates'']"

text \<open>The test at the head of the inline loops: the pair is left out.\<close>

definition skips :: "'v env \<Rightarrow> string \<Rightarrow> string \<Rightarrow> bool" where
  "skips env ds_name term =
     ((term = ''medium'' \<or> term = ''long'') \<and> ds_name \<notin> set (med_long_datasets env))"

text \<open>
  Between two states of a run, every dataset evaluated was constructed with the flag that
  \<open>flag\<close> gives for its target dimension.
\<close>

definition flagged_by :: "'v env \<Rightarrow> (int \<Rightarrow> bool) \<Rightarrow> 'v state \<Rightarrow> 'v state \<Rightarrow> bool" where
  "flagged_by env flag st st' =
     (\<exists>new. evaluated st' = evaluated st @ new
         \<and> list_all (\<lambda>(name, term, u). u = flag (target_dim env name term)) new)"

text \<open>
  The pairs of a dataset name and a term that the claims say are evaluated: the term is
  \<^verbatim>\<open>short\<close>, or the name is in the list of medium-to-long datasets.
\<close>

definition keeps :: "'v env \<Rightarrow> string \<Rightarrow> string \<Rightarrow> bool" where
  "keeps env ds_name term = (term = ''short'' \<or> ds_name \<in> set (med_long_datasets env))"

text \<open>
  The row an inline loop builds for a pair, and the row \<^verbatim>\<open>write_to_csv\<close> builds for the
  results of \<^verbatim>\<open>perform_inference\<close> on a pair.
\<close>

definition evaluation_row ::
  "string \<Rightarrow> (int \<Rightarrow> bool) \<Rightarrow> 'v env \<Rightarrow> string \<Rightarrow> string \<Rightarrow> error + 'v row" where
  "evaluation_row model_name to_univ env ds_name term =
     (case ds_key_freq (dataset_properties_map env) ds_name of
        Inl e \<Rightarrow> Inl e
      | Inr (ds_key, ds_freq) \<Rightarrow>
          result_row (dataset_properties_map env) (ds_key @ ''/'' @ ds_freq @ ''/'' @ term)
            model_name
            (evaluate_model env ds_name term (to_univ (target_dim env ds_name term))) ds_key)"

definition inference_row :: "'v env \<Rightarrow> string \<Rightarrow> string \<Rightarrow> error + 'v row" where
  "inference_row env dataset_name term =
     (case get_dataset_config (dataset_properties_map env) dataset_name term of
        Inl e \<Rightarrow> Inl e
      | Inr dataset_config \<Rightarrow>
          (case get_dataset_key dataset_name of
             Inl e \<Rightarrow> Inl e
           | Inr key \<Rightarrow>
               result_row (dataset_properties_map env) dataset_config ''feedforward''
                 (evaluate_model env dataset_name term
                    (check_if_multivariate env dataset_name term))
                 key))"

text \<open>All pairs in the order of the inline loops, datasets first, without the pairs left out.\<close>

definition kept_pairs :: "'v env \<Rightarrow> (string \<times> string) list" where
  "kept_pairs env =
     filter (\<lambda>(ds_name, term). keeps env ds_name term) (List.product (all_datasets env) terms)"

section \<open>Example inputs\<close>

definition example_job :: job_env where
  "example_job =
     \<lparr>job_name = ''load_datasets'', job_id = ''71'', array_job_id = ''70'', array_task_id = ''4'',
      timestamp = ''Mar 05, 2025 10:44:07PM''\<rparr>"

definition fresh_shell :: shell where
  "fresh_shell = \<lparr>dirs = {}, file_lines = Map.empty, stdout = [], stderr = []\<rparr>"

definition m4_hourly_props :: properties where
  "m4_hourly_props = \<lparr>frequency = ''H'', domain = ''Econ/Fin'', num_variates = 1\<rparr>"

definition bizitobs_props :: properties where
  "bizitobs_props = \<lparr>frequency = ''5T'', domain = ''Web/CloudOps'', num_variates = 7\<rparr>"

definition saugeen_props :: properties where
  "saugeen_props = \<lparr>frequency = ''D'', domain = ''Nature'', num_variates = 1\<rparr>"

definition example_props :: properties_map where
  "example_props =
     [''m4_hourly'' \<mapsto> m4_hourly_props, ''bizitobs_l2c'' \<mapsto> bizitobs_props,
      ''saugeen'' \<mapsto> saugeen_props]"

definition example_results :: "nat results" where
  "example_results =
     map_of
       [(''MSE[mean]'', [1]), (''MSE[0.5]'', [2]), (''MAE[0.5]'', [3]), (''MASE[0.5]'', [4]),
        (''MAPE[0.5]'', [5]), (''sMAPE[0.5]'', [6]), (''MSIS'', [7]), (''RMSE[mean]'', [8]),
        (''NRMSE[mean]'', [9]), (''ND[0.5]'', [10]),
        (''mean_weighted_sum_quantile_loss'', [11])]"

definition example_files :: "nat files" where
  "example_files = [''results/feedforward.csv'' \<mapsto> [header]]"

definition example_env :: "nat env" where
  "example_env =
     \<lparr>all_datasets = [''m4_hourly'', ''bizitobs_l2c/H''],
      med_long_datasets = [''bizitobs_l2c/H''],
      dataset_properties_map = example_props,
      target_dim = (\<lambda>name term. if name = ''bizitobs_l2c/H'' then 7 else 1),
      evaluate_model = (\<lambda>name term to_univariate. example_results),
      csv_file_path = ''results/feedforward.csv''\<rparr>"

definition example_state :: "nat state" where
  "example_state = \<lparr>files = example_files, evaluated = []\<rparr>"

definition example_row :: "string \<Rightarrow> string \<Rightarrow> properties \<Rightarrow> nat row" where
  "example_row config model p = row_of config model [1, 2, 3, 4, 5, 6, 7, 8, 9, 10, 11] p"

section \<open>Splitting a name\<close>

lemma split_str_nonempty: "split_str sep s \<noteq> []"
  by (induction s) (auto split: list.splits)

lemma hd_split_str: "hd (split_str sep s) = before_first sep s"
  using split_str_nonempty [of sep]
  by (induction s) (auto simp: before_first_def split: list.splits)

lemma split_str_first: "index (split_str sep s) 0 = Inr (before_first sep s)"
  using split_str_nonempty [of sep s] hd_split_str [of sep s]
  by (cases "split_str sep s") (auto simp: index_def)

lemma split_str_tl: "sep \<in> set s \<Longrightarrow> tl (split_str sep s) = split_str sep (after_first sep s)"
  using split_str_nonempty [of sep]
  by (induction s) (auto simp: after_first_def split: list.splits)

lemma split_str_second:
  assumes "sep \<in> set s"
  shows "index (split_str sep s) 1 = Inr (before_first sep (after_first sep s))"
proof -
  let ?rest = "after_first sep s"
  obtain w ws where w: "split_str sep s = w # ws"
    using split_str_nonempty [of sep s] by (cases "split_str sep s") auto
  with split_str_tl [OF assms] have ws: "ws = split_str sep ?rest" by simp
  obtain v vs where v: "split_str sep ?rest = v # vs"
    using split_str_nonempty [of sep ?rest] by (cases "split_str sep ?rest") auto
  with hd_split_str [of sep ?rest] have "v = before_first sep ?rest" by simp
  with w ws v show ?thesis by (simp add: index_def)
qed

section \<open>Dataset keys and configurations\<close>

text \<open>
  C4. For every dataset name, \<^verbatim>\<open>get_dataset_key\<close> returns the part of the name before the
  first \<^verbatim>\<open>/\<close>, as it is written, when the name contains a \<^verbatim>\<open>/\<close>, and the whole name in
  lower case when it does not. It never raises.
\<close>

theorem get_dataset_key_cases:
  "get_dataset_key dataset_name =
     (if CHR ''/'' \<in> set dataset_name then Inr (before_first (CHR ''/'') dataset_name)
      else Inr (lower dataset_name))"
  by (simp add: get_dataset_key_def split_str_first)

theorem get_dataset_key_cases_witness:
  "get_dataset_key ''LOOP_SEATTLE/5T'' = Inr ''LOOP_SEATTLE''
   \<and> get_dataset_key ''M4_Hourly'' = Inr ''m4_hourly''"
  using get_dataset_key_cases [of "''LOOP_SEATTLE/5T''"] get_dataset_key_cases [of "''M4_Hourly''"]
  by (simp add: before_first_def lower_def)

text \<open>
  C1. The claim is that \<^verbatim>\<open>get_dataset_key\<close> of the model notebooks and \<^verbatim>\<open>get_key\<close> of
  \<^verbatim>\<open>dataset_info.ipynb\<close> return the same key for every name. On the names
  \<^verbatim>\<open>saugeenday/D\<close> and \<^verbatim>\<open>LOOP_SEATTLE/5T\<close>, both in the dataset lists of the notebooks,
  they differ: \<^verbatim>\<open>get_dataset_key\<close> neither lowers the part before the \<^verbatim>\<open>/\<close> nor
  replaces it by its pretty name.
\<close>

theorem get_dataset_key_differs_from_get_key:
  "get_dataset_key ''saugeenday/D'' = Inr ''saugeenday''
   \<and> get_key ''saugeenday/D'' = Inr ''saugeen''
   \<and> get_dataset_key ''LOOP_SEATTLE/5T'' = Inr ''LOOP_SEATTLE''
   \<and> get_key ''LOOP_SEATTLE/5T'' = Inr ''loop_seattle''"
  by (simp add: get_dataset_key_def get_key_def index_def lower_def get_default_def
      pretty_names_def)

section \<open>Array tasks\<close>

lemma task_indices_bij:
  assumes "0 < n"
  shows "bij_betw (task_indices n) {0..<3 * n} (Some ` ({0..<3::nat} \<times> {0..<n}))"
proof (rule bij_betwI')
  fix x y assume "x \<in> {0..<3 * n}" "y \<in> {0..<3 * n}"
  show "(task_indices n x = task_indices n y) = (x = y)"
  proof
    assume "task_indices n x = task_indices n y"
    with assms have "x div n = y div n" "x mod n = y mod n"
      by (auto simp: task_indices_def term_index_def name_index_def)
    then show "x = y" by (metis div_mult_mod_eq)
  qed simp
next
  fix x assume "x \<in> {0..<3 * n}"
  then have "x div n < 3" using assms by (simp add: less_mult_imp_div_less mult.commute)
  then show "task_indices n x \<in> Some ` ({0..<3::nat} \<times> {0..<n})"
    using assms by (auto simp: task_indices_def term_index_def name_index_def)
next
  fix y assume "y \<in> Some ` ({0..<3::nat} \<times> {0..<n})"
  then obtain a b where y: "y = Some (a, b)" and a: "a < 3" and b: "b < n" by auto
  have "a * n + b < 3 * n"
  proof -
    have "a * n + b < a * n + n" using b by simp
    also have "\<dots> = (a + 1) * n" by simp
    also have "\<dots> \<le> 3 * n" using a by (intro mult_le_mono1) simp
    finally show ?thesis .
  qed
  moreover have "task_indices n (a * n + b) = Some (a, b)"
    using assms b by (simp add: task_indices_def term_index_def name_index_def)
  ultimately show "\<exists>x\<in>{0..<3 * n}. y = task_indices n x" using y by force
qed

lemma bij_betw_array_elem:
  assumes "distinct xs"
  shows "bij_betw (array_elem xs) {0..<length xs} (set xs)"
proof -
  have "bij_betw (\<lambda>i. xs ! i) {0..<length xs} (set xs)"
    using assms by (intro bij_betw_nth) (simp_all add: lessThan_atLeast0)
  moreover have "bij_betw (array_elem xs) {0..<length xs} (set xs)
      = bij_betw (\<lambda>i. xs ! i) {0..<length xs} (set xs)"
    by (rule bij_betw_cong) (simp add: array_elem_def)
  ultimately show ?thesis by simp
qed

lemma bij_betw_pair:
  assumes f: "bij_betw f A C" and g: "bij_betw g B D"
  shows "bij_betw (\<lambda>(a, b). (f a, g b)) (A \<times> B) (C \<times> D)"
  unfolding bij_betw_def
proof
  show "inj_on (\<lambda>(a, b). (f a, g b)) (A \<times> B)"
    using f g by (auto simp: bij_betw_def inj_on_def)
  show "(\<lambda>(a, b). (f a, g b)) ` (A \<times> B) = C \<times> D"
    using f g by (force simp: bij_betw_def image_iff)
qed

lemma bij_betw_map_option:
  assumes "bij_betw h X Y"
  shows "bij_betw (map_option h) (Some ` X) (Some ` Y)"
  unfolding bij_betw_def
proof
  show "inj_on (map_option h) (Some ` X)"
    using assms by (auto simp: bij_betw_def inj_on_def)
  show "map_option h ` Some ` X = Some ` Y"
    using assms by (force simp: bij_betw_def image_iff)
qed

lemma terms_distinct: "distinct terms" "length terms = 3"
  by (simp_all add: terms_def)

lemma task_pair_bij:
  assumes "distinct names" and "names \<noteq> []"
  shows "bij_betw (task_pair names) {0..<3 * length names} (Some ` (set terms \<times> set names))"
proof -
  let ?n = "length names"
  let ?h = "\<lambda>(ti, ni). (array_elem terms ti, array_elem names ni)"
  have n: "0 < ?n" using assms(2) by simp
  have "bij_betw ?h ({0..<3} \<times> {0..<?n}) (set terms \<times> set names)"
    using bij_betw_pair [OF bij_betw_array_elem [OF terms_distinct(1)]
        bij_betw_array_elem [OF assms(1)]]
    by (simp add: terms_distinct(2))
  then have "bij_betw (map_option ?h) (Some ` ({0..<3} \<times> {0..<?n}))
      (Some ` (set terms \<times> set names))"
    by (rule bij_betw_map_option)
  with task_indices_bij [OF n]
  have "bij_betw (map_option ?h \<circ> task_indices ?n) {0..<3 * ?n}
      (Some ` (set terms \<times> set names))"
    by (rule bij_betw_trans)
  moreover have "bij_betw (task_pair names) {0..<3 * ?n} (Some ` (set terms \<times> set names))
      = bij_betw (map_option ?h \<circ> task_indices ?n) {0..<3 * ?n}
          (Some ` (set terms \<times> set names))"
    by (rule bij_betw_cong) (simp add: task_pair_def split: option.splits)
  ultimately show ?thesis by simp
qed

text \<open>
  C9. With \<open>num_names > 0\<close> dataset names, the decomposition of the task id into
  \<open>term_index = task_id div num_names\<close> and \<open>name_index = task_id mod num_names\<close> succeeds on
  every task id and maps the ids \<open>0 .. 3 * num_names - 1\<close> one-to-one onto the pairs of an
  index into the three terms and an index into the names. When the names are distinct, as
  the names of the directories of one directory are, the tasks correspond one-to-one to the
  pairs of a term and a name.
\<close>

theorem task_id_decomposition_bijective:
  "names \<noteq> [] \<Longrightarrow>
     bij_betw (task_indices (length names)) {0..<3 * length names}
       (Some ` ({0..<3::nat} \<times> {0..<length names}))
     \<and> (distinct names \<longrightarrow>
          bij_betw (task_pair names) {0..<3 * length names} (Some ` (set terms \<times> set names)))"
  using task_indices_bij [of "length names"] task_pair_bij [of names] by simp

theorem task_id_decomposition_bijective_witness:
  "[''ett1'', ''solar''] \<noteq> [] \<and> distinct [''ett1'', ''solar'']
   \<and> bij_betw (task_indices 2) {0..<6} (Some ` ({0..<3::nat} \<times> {0..<2}))
   \<and> bij_betw (task_pair [''ett1'', ''solar'']) {0..<6}
        (Some ` (set terms \<times> set [''ett1'', ''solar'']))"
  using task_id_decomposition_bijective [of "[''ett1'', ''solar'']"]
  by (simp add: numeral_2_eq_2)

section \<open>The configuration of a dataset\<close>

lemma before_first_id: "sep \<notin> set s \<Longrightarrow> before_first sep s = s"
  by (induction s) (auto simp: before_first_def)

text \<open>
  For any string, the frequency of a name with a \<^verbatim>\<open>/\<close> is the field between the first
  \<^verbatim>\<open>/\<close> and the next one, or the end of the string.
\<close>

lemma get_dataset_config_split:
  "\<exists>key. get_dataset_key dataset_name = Inr key
     \<and> get_dataset_config props dataset_name term =
         (if CHR ''/'' \<in> set dataset_name
          then Inr (key @ ''/'' @ before_first (CHR ''/'') (after_first (CHR ''/'') dataset_name)
                      @ ''/'' @ term)
          else (case props key of
                  None \<Rightarrow> Inl (KeyError key)
                | Some p \<Rightarrow> Inr (key @ ''/'' @ frequency p @ ''/'' @ term)))"
proof (cases "CHR ''/'' \<in> set dataset_name")
  case True
  then show ?thesis
    using split_str_second [of "CHR ''/''" dataset_name]
    by (simp add: get_dataset_config_def get_dataset_freq_def get_dataset_key_def
        split_str_first)
next
  case False
  then show ?thesis
    by (simp add: get_dataset_config_def get_dataset_freq_def get_dataset_key_def
        getitem_def split: option.splits)
qed

lemma one_separator:
  "length (filter (\<lambda>c. c = sep) s) \<le> 1 \<Longrightarrow> sep \<notin> set (after_first sep s)"
proof (induction s)
  case Nil
  show ?case by (simp add: after_first_def)
next
  case (Cons c s)
  show ?case
  proof (cases "c = sep")
    case True
    with Cons.prems have "filter (\<lambda>c. c = sep) s = []" by simp
    then have "sep \<notin> set s" by (auto simp: filter_empty_conv)
    with True show ?thesis by (simp add: after_first_def)
  next
    case False
    with Cons show ?thesis by (simp add: after_first_def)
  qed
qed

text \<open>
  C5. For every dataset name and term, \<^verbatim>\<open>get_dataset_config\<close> returns \<open>key/freq/term\<close>,
  where \<open>key\<close> is the result of \<^verbatim>\<open>get_dataset_key\<close> on the name and \<open>freq\<close> is the part of
  the name after the first \<^verbatim>\<open>/\<close> when the name contains a \<^verbatim>\<open>/\<close>, and otherwise is the
  frequency of the entry of \<open>key\<close> in the properties map; when \<open>key\<close> has no entry there,
  the lookup raises \<^verbatim>\<open>KeyError\<close>.
\<close>

theorem get_dataset_config_of_dataset_name:
  assumes "dataset_name_form dataset_name"
  shows "\<exists>key. get_dataset_key dataset_name = Inr key
     \<and> get_dataset_config props dataset_name term =
         (if CHR ''/'' \<in> set dataset_name
          then Inr (key @ ''/'' @ after_first (CHR ''/'') dataset_name @ ''/'' @ term)
          else (case props key of
                  None \<Rightarrow> Inl (KeyError key)
                | Some p \<Rightarrow> Inr (key @ ''/'' @ frequency p @ ''/'' @ term)))"
proof -
  from assms have "CHR ''/'' \<notin> set (after_first (CHR ''/'') dataset_name)"
    unfolding dataset_name_form_def by (rule one_separator)
  then have "before_first (CHR ''/'') (after_first (CHR ''/'') dataset_name)
      = after_first (CHR ''/'') dataset_name"
    by (rule before_first_id)
  with get_dataset_config_split [of dataset_name props "term"] show ?thesis by auto
qed

theorem get_dataset_config_of_dataset_name_witness:
  "dataset_name_form ''bizitobs_l2c/H'' \<and> dataset_name_form ''m4_hourly''
   \<and> get_dataset_key ''bizitobs_l2c/H'' = Inr ''bizitobs_l2c''
   \<and> after_first (CHR ''/'') ''bizitobs_l2c/H'' = ''H''
   \<and> get_dataset_config Map.empty ''bizitobs_l2c/H'' ''short'' = Inr ''bizitobs_l2c/H/short''
   \<and> get_dataset_key ''m4_hourly'' = Inr ''m4_hourly''
   \<and> get_dataset_config example_props ''m4_hourly'' ''short'' = Inr ''m4_hourly/H/short''
   \<and> get_dataset_config Map.empty ''m4_hourly'' ''short'' = Inl (KeyError ''m4_hourly'')"
proof -
  have a: "dataset_name_form ''bizitobs_l2c/H''" and b: "dataset_name_form ''m4_hourly''"
    by (simp_all add: dataset_name_form_def)
  have k: "get_dataset_key ''bizitobs_l2c/H'' = Inr ''bizitobs_l2c''"
    "get_dataset_key ''m4_hourly'' = Inr ''m4_hourly''"
    "after_first (CHR ''/'') ''bizitobs_l2c/H'' = ''H''"
    by (simp_all add: get_dataset_key_def index_def lower_def after_first_def)
  from get_dataset_config_of_dataset_name [OF a, of Map.empty "''short''"] k
  have 1: "get_dataset_config Map.empty ''bizitobs_l2c/H'' ''short''
           = Inr ''bizitobs_l2c/H/short''"
    by simp
  from get_dataset_config_of_dataset_name [OF b, of example_props "''short''"] k
  have 2: "get_dataset_config example_props ''m4_hourly'' ''short'' = Inr ''m4_hourly/H/short''"
    by (simp add: example_props_def m4_hourly_props_def)
  from get_dataset_config_of_dataset_name [OF b, of Map.empty "''short''"] k
  have 3: "get_dataset_config Map.empty ''m4_hourly'' ''short'' = Inl (KeyError ''m4_hourly'')"
    by simp
  from a b k 1 2 3 show ?thesis by simp
qed

section \<open>Marker files\<close>

lemma get_done_file_path: "fst (get_done_file env sh) = done_path env"
  by (simp add: get_done_file_def get_done_dir_def done_path_def Let_def)

lemma finish_job_finished:
  "finished_with env done_text (finish_job ok_text done_text error_text env 0 sh)"
  by (simp add: finished_with_def finish_job_def get_done_file_def get_done_dir_def
      done_path_def Let_def echo_to_def)

lemma finish_job_failed:
  "python_status \<noteq> 0 \<Longrightarrow>
     failed_with env error_text sh (finish_job ok_text done_text error_text env python_status sh)"
  by (simp add: failed_with_def finish_job_def log_error_def)

lemma finish_job_marker:
  assumes "file_lines sh (done_path env) = None"
  shows "(file_lines (snd (finish_job ok_text done_text error_text env python_status sh))
            (done_path env) \<noteq> None) = (python_status = 0)"
proof (cases "python_status = 0")
  case True
  with finish_job_finished [of env done_text ok_text error_text sh] show ?thesis
    by (simp add: finished_with_def)
next
  case False
  with finish_job_failed [of python_status env error_text sh ok_text done_text] assms
  show ?thesis by (simp add: failed_with_def)
qed

text \<open>
  C10. In both dataset-loading scripts: when the \<^verbatim>\<open>python\<close> command exits with status 0,
  the script ends with status 0 and the marker file holds its one line; when the command
  exits with another status, the script writes the error line to standard error, ends with
  status 1, and creates or changes no file and no directory. So a marker file that did not
  exist before the run exists after it if and only if the command exited with status 0.
\<close>

theorem done_marker_iff_python_succeeds:
  "(python_status = 0 \<longrightarrow>
      finished_with env (''Finished loading '' @ message @ ''!'')
        (load_datasets_job message env python_status sh)
      \<and> finished_with env (''Done with '' @ job_name env @ ''!'')
          (run_load_dataset env python_status sh))
   \<and> (python_status \<noteq> 0 \<longrightarrow>
        failed_with env (''ERROR: Failed to load '' @ message @ ''!'') sh
          (load_datasets_job message env python_status sh)
        \<and> failed_with env (''ERROR: '' @ job_name env @ ''!'') sh
            (run_load_dataset env python_status sh))
   \<and> (file_lines sh (done_path env) = None \<longrightarrow>
        (file_lines (snd (load_datasets_job message env python_status sh)) (done_path env) \<noteq> None)
          = (python_status = 0)
        \<and> (file_lines (snd (run_load_dataset env python_status sh)) (done_path env) \<noteq> None)
            = (python_status = 0))"
  using finish_job_finished finish_job_failed finish_job_marker
  by (simp add: load_datasets_job_def run_load_dataset_def)

theorem done_marker_iff_python_succeeds_witness:
  "file_lines fresh_shell (done_path example_job) = None
   \<and> done_path example_job = ''./logs/load_datasets/done/70/4.done''
   \<and> finished_with example_job ''Finished loading pretraining dataset 5: solar (short)!''
       (load_datasets_job ''pretraining dataset 5: solar (short)'' example_job 0 fresh_shell)
   \<and> (2::nat) \<noteq> 0
   \<and> failed_with example_job ''ERROR: Failed to load pretraining dataset 5: solar (short)!''
       fresh_shell
       (load_datasets_job ''pretraining dataset 5: solar (short)'' example_job 2 fresh_shell)
   \<and> file_lines
        (snd (load_datasets_job ''pretraining dataset 5: solar (short)'' example_job 2
                fresh_shell))
        (done_path example_job) = None"
  using done_marker_iff_python_succeeds [of 0 example_job
      "''pretraining dataset 5: solar (short)''" fresh_shell]
    done_marker_iff_python_succeeds [of 2 example_job
      "''pretraining dataset 5: solar (short)''" fresh_shell]
  by (simp add: done_path_def example_job_def fresh_shell_def)

section \<open>Result rows\<close>

lemma sequence_Inr: "sequence rs = Inr xs \<Longrightarrow> rs = map Inr xs"
  by (induction rs arbitrary: xs) (auto split: sum.splits)

lemma fmetric_Inr: "fmetric r = Inr f \<Longrightarrow> \<exists>v. r = Inr v \<and> f = FMetric v"
  by (cases r) (auto simp: fmetric_def)

lemma header_columns: "(header :: 'v row) = header_of metric_names"
  by (simp add: header_def header_of_def metric_names_def)

lemma length_metric_names: "length metric_names = 11"
  by (simp add: metric_names_def)

lemma result_row_Inr:
  assumes "result_row props config model results key = Inr row"
  shows "\<exists>p vs. props key = Some p
           \<and> map (metric_value results) metric_names = map Inr vs
           \<and> row = row_of config model vs p"
proof -
  note eq = sequence_Inr [OF assms [unfolded result_row_def]]
  from eq obtain f0 f1 f2 f3 f4 f5 f6 f7 f8 f9 f10 f11 f12 f13 f14 where
    row: "row = [f0, f1, f2, f3, f4, f5, f6, f7, f8, f9, f10, f11, f12, f13, f14]"
    and f0: "f0 = FStr config" and f1: "f1 = FStr model"
    and m: "fmetric (metric_value results ''MSE[mean]'') = Inr f2"
      "fmetric (metric_value results ''MSE[0.5]'') = Inr f3"
      "fmetric (metric_value results ''MAE[0.5]'') = Inr f4"
      "fmetric (metric_value results ''MASE[0.5]'') = Inr f5"
      "fmetric (metric_value results ''MAPE[0.5]'') = Inr f6"
      "fmetric (metric_value results ''sMAPE[0.5]'') = Inr f7"
      "fmetric (metric_value results ''MSIS'') = Inr f8"
      "fmetric (metric_value results ''RMSE[mean]'') = Inr f9"
      "fmetric (metric_value results ''NRMSE[mean]'') = Inr f10"
      "fmetric (metric_value results ''ND[0.5]'') = Inr f11"
      "fmetric (metric_value results ''mean_weighted_sum_quantile_loss'') = Inr f12"
    and d: "(case getitem props key of Inl e \<Rightarrow> Inl e | Inr p \<Rightarrow> Inr (FStr (domain p))) = Inr f13"
    and n: "(case getitem props key of Inl e \<Rightarrow> Inl e | Inr p \<Rightarrow> Inr (FInt (num_variates p)))
            = Inr f14"
    by (auto simp: Cons_eq_map_conv)
  from d obtain p where p: "props key = Some p" and f13: "f13 = FStr (domain p)"
    by (auto simp: getitem_def split: option.splits)
  with n have f14: "f14 = FInt (num_variates p)"
    by (simp add: getitem_def)
  from m obtain v2 v3 v4 v5 v6 v7 v8 v9 v10 v11 v12 where
    v: "metric_value results ''MSE[mean]'' = Inr v2" "f2 = FMetric v2"
      "metric_value results ''MSE[0.5]'' = Inr v3" "f3 = FMetric v3"
      "metric_value results ''MAE[0.5]'' = Inr v4" "f4 = FMetric v4"
      "metric_value results ''MASE[0.5]'' = Inr v5" "f5 = FMetric v5"
      "metric_value results ''MAPE[0.5]'' = Inr v6" "f6 = FMetric v6"
      "metric_value results ''sMAPE[0.5]'' = Inr v7" "f7 = FMetric v7"
      "metric_value results ''MSIS'' = Inr v8" "f8 = FMetric v8"
      "metric_value results ''RMSE[mean]'' = Inr v9" "f9 = FMetric v9"
      "metric_value results ''NRMSE[mean]'' = Inr v10" "f10 = FMetric v10"
      "metric_value results ''ND[0.5]'' = Inr v11" "f11 = FMetric v11"
      "metric_value results ''mean_weighted_sum_quantile_loss'' = Inr v12" "f12 = FMetric v12"
    by (fastforce dest!: fmetric_Inr)
  let ?vs = "[v2, v3, v4, v5, v6, v7, v8, v9, v10, v11, v12]"
  have "map (metric_value results) metric_names = map Inr ?vs"
    using v by (simp add: metric_names_def)
  moreover have "row = row_of config model ?vs p"
    using row f0 f1 f13 f14 v by (simp add: row_of_def)
  ultimately show ?thesis using p by blast
qed

section \<open>Writing a row\<close>

lemma write_to_csv_returns:
  assumes "write_to_csv props results path term name fs = (None, fs')"
  shows "\<exists>cfg key row. get_dataset_config props name term = Inr cfg
           \<and> get_dataset_key name = Inr key
           \<and> result_row props cfg ''feedforward'' results key = Inr row
           \<and> fs' = writerow (open_append fs path) path row"
  using assms by (auto simp: write_to_csv_def Let_def split: sum.splits)

lemma write_to_csv_raises:
  assumes "write_to_csv props results path term name fs = (Some e, fs')"
  shows "fs' = fs \<or> fs' = open_append fs path"
  using assms by (auto simp: write_to_csv_def Let_def split: sum.splits)

lemma append_row: "writerow (open_append fs path) path row = fs(path \<mapsto> file_rows fs path @ [row])"
  by (simp add: writerow_def open_append_def file_rows_def split: option.splits)

lemma open_append_rows: "file_rows (open_append fs path) p = file_rows fs p"
  by (simp add: open_append_def file_rows_def split: option.splits)

lemma open_append_other: "p \<noteq> path \<Longrightarrow> open_append fs path p = fs p"
  by (simp add: open_append_def split: option.splits)

text \<open>
  C6, amended. \<^verbatim>\<open>write_to_csv\<close> appends: after every call, every other file is as it
  was; after a call that returns, the result file holds the rows it held before (none when
  it did not exist), in their order, followed by exactly one new row; after a call that
  raises, it holds the rows it held before and no other.
\<close>

theorem write_to_csv_appends:
  assumes "write_to_csv props results path term name fs = (r, fs')"
  shows "(\<forall>p. p \<noteq> path \<longrightarrow> fs' p = fs p)
         \<and> (r = None \<longrightarrow> (\<exists>row. fs' path = Some (file_rows fs path @ [row])))
         \<and> (r \<noteq> None \<longrightarrow> file_rows fs' path = file_rows fs path)"
proof (cases r)
  case None
  with assms write_to_csv_returns [of props results path "term" name fs fs']
  show ?thesis by (auto simp: append_row)
next
  case (Some e)
  with assms write_to_csv_raises [of props results path "term" name fs e fs']
  show ?thesis by (auto simp: open_append_rows open_append_other)
qed

lemma evaluation_step_cases:
  assumes "evaluation_step model to_univ env ds_name term st = (r, st')"
  obtains
    (skipped) "skips env ds_name term" "r = None" "st' = st"
  | (unknown) e where "\<not> skips env ds_name term"
      "ds_key_freq (dataset_properties_map env) ds_name = Inl e" "r = Some e" "st' = st"
  | (raised) k f e where "\<not> skips env ds_name term"
      "ds_key_freq (dataset_properties_map env) ds_name = Inr (k, f)"
      "result_row (dataset_properties_map env) (k @ ''/'' @ f @ ''/'' @ term) model
         (evaluate_model env ds_name term (to_univ (target_dim env ds_name term))) k = Inl e"
      "r = Some e"
      "evaluated st' = evaluated st @ [(ds_name, term, to_univ (target_dim env ds_name term))]"
      "files st' = open_append (files st) (csv_file_path env)"
  | (written) k f row where "\<not> skips env ds_name term"
      "ds_key_freq (dataset_properties_map env) ds_name = Inr (k, f)"
      "result_row (dataset_properties_map env) (k @ ''/'' @ f @ ''/'' @ term) model
         (evaluate_model env ds_name term (to_univ (target_dim env ds_name term))) k = Inr row"
      "r = None"
      "evaluated st' = evaluated st @ [(ds_name, term, to_univ (target_dim env ds_name term))]"
      "files st' = (files st)(csv_file_path env \<mapsto> file_rows (files st) (csv_file_path env) @ [row])"
proof (cases "skips env ds_name term")
  case True
  with assms have "r = None" "st' = st"
    by (auto simp: evaluation_step_def skips_def)
  with True show ?thesis by (rule skipped)
next
  case ns: False
  show ?thesis
  proof (cases "ds_key_freq (dataset_properties_map env) ds_name")
    case (Inl e)
    with assms ns have "r = Some e" "st' = st"
      by (auto simp: evaluation_step_def skips_def)
    with ns Inl show ?thesis by (rule unknown)
  next
    case (Inr kf)
    obtain k f where kf: "kf = (k, f)" by (cases kf)
    let ?row = "result_row (dataset_properties_map env) (k @ ''/'' @ f @ ''/'' @ term) model
         (evaluate_model env ds_name term (to_univ (target_dim env ds_name term))) k"
    show ?thesis
    proof (cases ?row)
      case e: (Inl e)
      with assms ns Inr kf have "r = Some e"
        "evaluated st' = evaluated st @ [(ds_name, term, to_univ (target_dim env ds_name term))]"
        "files st' = open_append (files st) (csv_file_path env)"
        by (auto simp: evaluation_step_def skips_def Let_def)
      with ns Inr kf e show ?thesis by (intro raised) auto
    next
      case row: (Inr row)
      with assms ns Inr kf have "r = None"
        "evaluated st' = evaluated st @ [(ds_name, term, to_univ (target_dim env ds_name term))]"
        "files st' = writerow (open_append (files st) (csv_file_path env)) (csv_file_path env) row"
        by (auto simp: evaluation_step_def skips_def Let_def)
      with ns Inr kf row show ?thesis by (intro written) (auto simp: append_row)
    qed
  qed
qed

lemma row_of_metric:
  "i < length vs \<Longrightarrow> row_of config model vs p ! (i + 2) = FMetric (vs ! i)"
  by (simp add: row_of_def nth_append)

lemma result_row_metrics:
  assumes "result_row props config model results key = Inr row"
    and "i < length metric_names"
  shows "fmetric (metric_value results (metric_names ! i)) = Inr (row ! (i + 2))"
proof -
  from result_row_Inr [OF assms(1)] obtain p vs where
    vs: "map (metric_value results) metric_names = map Inr vs"
    and row: "row = row_of config model vs p" by blast
  from vs have len: "length vs = length metric_names"
    by (metis length_map)
  from vs assms(2) len have "metric_value results (metric_names ! i) = Inr (vs ! i)"
    by (metis nth_map)
  moreover have "row ! (i + 2) = FMetric (vs ! i)"
    using row len assms(2) row_of_metric [of i vs config model p] by simp
  ultimately show ?thesis by (simp add: fmetric_def)
qed

text \<open>
  C3. Every metric value written to a result row is the value \<^verbatim>\<open>results[M][0]\<close> of the
  table \<^verbatim>\<open>evaluate_model\<close> returned, for the metric \<open>M\<close> of its column: the field at
  position \<open>i + 2\<close> of the row that \<^verbatim>\<open>write_to_csv\<close> appends, and of the row a step of an
  inline loop appends, is the metric value of the \<open>i\<close>-th metric name. The notebooks apply
  no operation to a metric value: the statement holds for values of any type.
\<close>

theorem written_metrics_are_results:
  "(write_to_csv props results path term name fs = (None, fs') \<longrightarrow>
      (\<exists>row. fs' path = Some (file_rows fs path @ [row])
         \<and> (\<forall>i<length metric_names.
               fmetric (metric_value results (metric_names ! i)) = Inr (row ! (i + 2)))))
   \<and> (evaluation_step model to_univ env ds_name term st = (None, st') \<longrightarrow>
        \<not> skips env ds_name term \<longrightarrow>
        (\<exists>row. files st' (csv_file_path env)
                 = Some (file_rows (files st) (csv_file_path env) @ [row])
           \<and> (\<forall>i<length metric_names.
                 fmetric (metric_value
                            (evaluate_model env ds_name term
                               (to_univ (target_dim env ds_name term)))
                            (metric_names ! i))
                   = Inr (row ! (i + 2)))))"
proof (intro conjI impI)
  assume "write_to_csv props results path term name fs = (None, fs')"
  from write_to_csv_returns [OF this] obtain cfg key row where
    "result_row props cfg ''feedforward'' results key = Inr row"
    "fs' = writerow (open_append fs path) path row" by blast
  then show "\<exists>row. fs' path = Some (file_rows fs path @ [row])
         \<and> (\<forall>i<length metric_names.
               fmetric (metric_value results (metric_names ! i)) = Inr (row ! (i + 2)))"
    using result_row_metrics by (auto simp: append_row)
next
  assume step: "evaluation_step model to_univ env ds_name term st = (None, st')"
    and ns: "\<not> skips env ds_name term"
  from step ns show "\<exists>row. files st' (csv_file_path env)
                 = Some (file_rows (files st) (csv_file_path env) @ [row])
           \<and> (\<forall>i<length metric_names.
                 fmetric (metric_value
                            (evaluate_model env ds_name term
                               (to_univ (target_dim env ds_name term)))
                            (metric_names ! i))
                   = Inr (row ! (i + 2)))"
  proof (cases rule: evaluation_step_cases)
    case (written k f row)
    then show ?thesis using result_row_metrics by auto
  qed auto
qed

lemma result_row_columns:
  assumes "result_row props config model results key = Inr row"
  shows "\<exists>p vs. props key = Some p
           \<and> map (metric_value results) metric_names = map Inr vs
           \<and> row = row_of config model vs p \<and> length row = 15"
proof -
  from result_row_Inr [OF assms] obtain p vs where
    p: "props key = Some p"
    and vs: "map (metric_value results) metric_names = map Inr vs"
    and row: "row = row_of config model vs p" by blast
  from vs have "length vs = 11"
    by (metis length_map length_metric_names)
  with row have "length row = 15" by (simp add: row_of_def)
  with p vs row show ?thesis by blast
qed

text \<open>
  C7. The result file is initialised with the header row alone. The header has 15 fields:
  \<^verbatim>\<open>dataset\<close>, \<^verbatim>\<open>model\<close>, \<^verbatim>\<open>eval_metrics/M\<close> for the eleven metric names \<open>M\<close> in their
  order, \<^verbatim>\<open>domain\<close> and \<^verbatim>\<open>num_variates\<close>. Every row appended by \<^verbatim>\<open>write_to_csv\<close> or by a
  step of an inline loop has 15 fields in the same order: the configuration of the dataset,
  the model name, the values of the eleven metrics in the order of the metric names, then
  the domain and the number of variates of the dataset's entry in the properties map.
\<close>

theorem result_rows_follow_header:
  "(header :: 'v row) = header_of metric_names \<and> length (header :: 'v row) = 15
   \<and> (write_to_csv props results path term name fs = (None, fs') \<longrightarrow>
        (\<exists>cfg key p vs row.
           get_dataset_config props name term = Inr cfg \<and> get_dataset_key name = Inr key
           \<and> props key = Some p
           \<and> map (metric_value results) metric_names = map Inr vs
           \<and> row = row_of cfg ''feedforward'' vs p \<and> length row = 15
           \<and> fs' path = Some (file_rows fs path @ [row])))
   \<and> (evaluation_step model to_univ env ds_name term (st :: 'v state) = (None, st') \<longrightarrow>
        \<not> skips env ds_name term \<longrightarrow>
        (\<exists>k f p vs row.
           ds_key_freq (dataset_properties_map env) ds_name = Inr (k, f)
           \<and> dataset_properties_map env k = Some p
           \<and> map (metric_value (evaluate_model env ds_name term
                                   (to_univ (target_dim env ds_name term))))
                 metric_names = map Inr vs
           \<and> row = row_of (k @ ''/'' @ f @ ''/'' @ term) model vs p \<and> length row = 15
           \<and> files st' (csv_file_path env)
               = Some (file_rows (files st) (csv_file_path env) @ [row])))
   \<and> file_rows (init_csv fs path) path = [header :: 'v field list]"
proof (intro conjI impI)
  show "(header :: 'v row) = header_of metric_names" by (rule header_columns)
  show "length (header :: 'v row) = 15" by (simp add: header_def)
next
  assume "write_to_csv props results path term name fs = (None, fs')"
  from write_to_csv_returns [OF this] obtain cfg key row where
    c: "get_dataset_config props name term = Inr cfg" "get_dataset_key name = Inr key"
    and r: "result_row props cfg ''feedforward'' results key = Inr row"
    and f: "fs' = writerow (open_append fs path) path row" by blast
  from result_row_columns [OF r] c f
  show "\<exists>cfg key p vs row.
           get_dataset_config props name term = Inr cfg \<and> get_dataset_key name = Inr key
           \<and> props key = Some p
           \<and> map (metric_value results) metric_names = map Inr vs
           \<and> row = row_of cfg ''feedforward'' vs p \<and> length row = 15
           \<and> fs' path = Some (file_rows fs path @ [row])"
    by (auto simp: append_row)
next
  assume step: "evaluation_step model to_univ env ds_name term st = (None, st')"
    and ns: "\<not> skips env ds_name term"
  from step ns show "\<exists>k f p vs row.
           ds_key_freq (dataset_properties_map env) ds_name = Inr (k, f)
           \<and> dataset_properties_map env k = Some p
           \<and> map (metric_value (evaluate_model env ds_name term
                                   (to_univ (target_dim env ds_name term))))
                 metric_names = map Inr vs
           \<and> row = row_of (k @ ''/'' @ f @ ''/'' @ term) model vs p \<and> length row = 15
           \<and> files st' (csv_file_path env)
               = Some (file_rows (files st) (csv_file_path env) @ [row])"
  proof (cases rule: evaluation_step_cases)
    case (written k f row)
    from result_row_columns [OF written(3)] written(2,6) show ?thesis by auto
  qed auto
next
  show "file_rows (init_csv fs path) path = [header :: 'v field list]"
    by (simp add: init_csv_def open_write_def writerow_def file_rows_def)
qed

lemma example_write:
  "write_to_csv example_props example_results ''results/feedforward.csv'' ''short''
        ''m4_hourly'' example_files
   = (None, [''results/feedforward.csv'' \<mapsto>
        [header, example_row ''m4_hourly/H/short'' ''feedforward'' m4_hourly_props]])"
  by (simp add: write_to_csv_def get_dataset_config_def get_dataset_freq_def get_dataset_key_def
      index_def result_row_def metric_value_def fmetric_def getitem_def example_props_def
      example_results_def example_files_def open_append_def writerow_def lower_def row_of_def
      example_row_def m4_hourly_props_def)

lemma example_write_raises:
  "write_to_csv example_props example_results ''results/feedforward.csv'' ''short''
        ''saugeenday/D'' example_files
   = (Some (KeyError ''saugeenday''), example_files)"
  by (simp add: write_to_csv_def get_dataset_config_def get_dataset_freq_def get_dataset_key_def
      index_def result_row_def metric_value_def fmetric_def getitem_def example_props_def
      example_results_def example_files_def open_append_def)

lemma example_step:
  "evaluation_step ''chronos_bolt_base'' chronos_to_univariate example_env ''bizitobs_l2c/H''
        ''short'' example_state
   = (None,
      \<lparr>files = [''results/feedforward.csv'' \<mapsto>
          [header, example_row ''bizitobs_l2c/H/short'' ''chronos_bolt_base'' bizitobs_props]],
       evaluated = [(''bizitobs_l2c/H'', ''short'', True)]\<rparr>)"
  by (simp add: evaluation_step_def ds_key_freq_def get_default_def pretty_names_def
      index_def result_row_def metric_value_def fmetric_def getitem_def example_props_def
      example_results_def example_files_def open_append_def writerow_def lower_def row_of_def
      example_row_def bizitobs_props_def example_env_def example_state_def
      chronos_to_univariate_def)

lemma example_not_skipped: "\<not> skips example_env ''bizitobs_l2c/H'' ''short''"
  by (simp add: skips_def example_env_def)

theorem written_metrics_are_results_witness:
  "write_to_csv example_props example_results ''results/feedforward.csv'' ''short''
        ''m4_hourly'' example_files
   = (None, [''results/feedforward.csv'' \<mapsto>
        [header, example_row ''m4_hourly/H/short'' ''feedforward'' m4_hourly_props]])
   \<and> list_all
        (\<lambda>i. fmetric (metric_value example_results (metric_names ! i))
               = Inr (example_row ''m4_hourly/H/short'' ''feedforward'' m4_hourly_props ! (i + 2)))
        [0..<length metric_names]
   \<and> evaluation_step ''chronos_bolt_base'' chronos_to_univariate example_env ''bizitobs_l2c/H''
        ''short'' example_state
      = (None,
         \<lparr>files = [''results/feedforward.csv'' \<mapsto>
             [header, example_row ''bizitobs_l2c/H/short'' ''chronos_bolt_base'' bizitobs_props]],
          evaluated = [(''bizitobs_l2c/H'', ''short'', True)]\<rparr>)
   \<and> \<not> skips example_env ''bizitobs_l2c/H'' ''short''
   \<and> list_all
        (\<lambda>i. fmetric (metric_value example_results (metric_names ! i))
               = Inr (example_row ''bizitobs_l2c/H/short'' ''chronos_bolt_base'' bizitobs_props
                        ! (i + 2)))
        [0..<length metric_names]"
proof -
  note t = written_metrics_are_results [of example_props example_results
      "''results/feedforward.csv''" "''short''" "''m4_hourly''" example_files
      "[''results/feedforward.csv'' \<mapsto>
        [header, example_row ''m4_hourly/H/short'' ''feedforward'' m4_hourly_props]]"
      "''chronos_bolt_base''" chronos_to_univariate example_env "''bizitobs_l2c/H''"
      example_state
      "\<lparr>files = [''results/feedforward.csv'' \<mapsto>
             [header, example_row ''bizitobs_l2c/H/short'' ''chronos_bolt_base'' bizitobs_props]],
          evaluated = [(''bizitobs_l2c/H'', ''short'', True)]\<rparr>"]
  from t example_write have a: "\<forall>i<length metric_names.
         fmetric (metric_value example_results (metric_names ! i))
           = Inr (example_row ''m4_hourly/H/short'' ''feedforward'' m4_hourly_props ! (i + 2))"
    by (simp add: file_rows_def example_files_def)
  from t example_step example_not_skipped have b: "\<forall>i<length metric_names.
         fmetric (metric_value example_results (metric_names ! i))
           = Inr (example_row ''bizitobs_l2c/H/short'' ''chronos_bolt_base'' bizitobs_props
                    ! (i + 2))"
    by (simp add: file_rows_def example_files_def example_state_def example_env_def)
  from a b example_write example_step example_not_skipped show ?thesis
    by (simp add: list_all_iff)
qed

text \<open>
  C6, as stated: every call of \<^verbatim>\<open>write_to_csv\<close> adds exactly one row. A call that raises
  adds none: with \<^verbatim>\<open>saugeen\<close> in the properties map, the name \<^verbatim>\<open>saugeenday/D\<close> has the key
  \<^verbatim>\<open>saugeenday\<close>, and the lookup of its domain raises \<^verbatim>\<open>KeyError\<close> after the file was
  opened.
\<close>

theorem write_to_csv_raising_call_counterexample:
  "write_to_csv example_props example_results ''results/feedforward.csv'' ''short''
        ''saugeenday/D'' example_files
   = (Some (KeyError ''saugeenday''), example_files)
   \<and> \<not> (\<exists>row. snd (write_to_csv example_props example_results ''results/feedforward.csv''
                        ''short'' ''saugeenday/D'' example_files) ''results/feedforward.csv''
                 = Some (file_rows example_files ''results/feedforward.csv'' @ [row]))"
  by (simp add: example_write_raises) (simp add: example_files_def file_rows_def)

theorem write_to_csv_appends_witness:
  "write_to_csv example_props example_results ''results/feedforward.csv'' ''short''
        ''m4_hourly'' example_files
   = (None, [''results/feedforward.csv'' \<mapsto>
        [header, example_row ''m4_hourly/H/short'' ''feedforward'' m4_hourly_props]])
   \<and> (\<exists>row. [''results/feedforward.csv'' \<mapsto>
                [header, example_row ''m4_hourly/H/short'' ''feedforward'' m4_hourly_props]]
               ''results/feedforward.csv''
             = Some (file_rows example_files ''results/feedforward.csv'' @ [row]))
   \<and> write_to_csv example_props example_results ''results/feedforward.csv'' ''short''
        ''saugeenday/D'' example_files
      = (Some (KeyError ''saugeenday''), example_files)
   \<and> Some (KeyError ''saugeenday'') \<noteq> None
   \<and> file_rows example_files ''results/feedforward.csv'' = [header]"
proof -
  from write_to_csv_appends [OF example_write]
  have "\<exists>row. [''results/feedforward.csv'' \<mapsto>
                [header, example_row ''m4_hourly/H/short'' ''feedforward'' m4_hourly_props]]
               ''results/feedforward.csv''
             = Some (file_rows example_files ''results/feedforward.csv'' @ [row])"
    by blast
  moreover from write_to_csv_appends [OF example_write_raises]
  have "file_rows example_files ''results/feedforward.csv''
          = file_rows example_files ''results/feedforward.csv''"
    by blast
  moreover have "file_rows example_files ''results/feedforward.csv'' = [header]"
    by (simp add: file_rows_def example_files_def)
  ultimately show ?thesis using example_write example_write_raises by simp
qed

theorem result_rows_follow_header_witness:
  "write_to_csv example_props example_results ''results/feedforward.csv'' ''short''
        ''m4_hourly'' example_files
   = (None, [''results/feedforward.csv'' \<mapsto>
        [header, example_row ''m4_hourly/H/short'' ''feedforward'' m4_hourly_props]])
   \<and> length (example_row ''m4_hourly/H/short'' ''feedforward'' m4_hourly_props) = 15
   \<and> evaluation_step ''chronos_bolt_base'' chronos_to_univariate example_env ''bizitobs_l2c/H''
        ''short'' example_state
      = (None,
         \<lparr>files = [''results/feedforward.csv'' \<mapsto>
             [header, example_row ''bizitobs_l2c/H/short'' ''chronos_bolt_base'' bizitobs_props]],
          evaluated = [(''bizitobs_l2c/H'', ''short'', True)]\<rparr>)
   \<and> \<not> skips example_env ''bizitobs_l2c/H'' ''short''
   \<and> length (example_row ''bizitobs_l2c/H/short'' ''chronos_bolt_base'' bizitobs_props) = 15"
proof -
  note t = result_rows_follow_header [of example_props example_results
      "''results/feedforward.csv''" "''short''" "''m4_hourly''" example_files
      "[''results/feedforward.csv'' \<mapsto>
        [header, example_row ''m4_hourly/H/short'' ''feedforward'' m4_hourly_props]]"
      "''chronos_bolt_base''" chronos_to_univariate example_env "''bizitobs_l2c/H''"
      example_state
      "\<lparr>files = [''results/feedforward.csv'' \<mapsto>
             [header, example_row ''bizitobs_l2c/H/short'' ''chronos_bolt_base'' bizitobs_props]],
          evaluated = [(''bizitobs_l2c/H'', ''short'', True)]\<rparr>"]
  from t example_write
  have a: "length (example_row ''m4_hourly/H/short'' ''feedforward'' m4_hourly_props) = 15"
    by (auto simp: file_rows_def example_files_def)
  from t example_step example_not_skipped
  have b: "length (example_row ''bizitobs_l2c/H/short'' ''chronos_bolt_base'' bizitobs_props)
             = 15"
    by (auto simp: file_rows_def example_files_def example_state_def example_env_def)
  from a b example_write example_step example_not_skipped show ?thesis by blast
qed

section \<open>The flag to_univariate\<close>

lemma for_each_invariant:
  assumes "for_each body xs s = (r, s')" and "P s"
    and "\<And>x t r' t'. x \<in> set xs \<Longrightarrow> P t \<Longrightarrow> body x t = (r', t') \<Longrightarrow> P t'"
  shows "P s'"
  using assms
proof (induction xs arbitrary: s)
  case Nil
  then show ?case by simp
next
  case (Cons x xs)
  obtain r1 s1 where b: "body x s = (r1, s1)" by (cases "body x s")
  have p1: "P s1" using Cons.prems(2,3) b by auto
  show ?case
  proof (cases r1)
    case None
    with Cons.prems(1) b have "for_each body xs s1 = (r, s')" by simp
    from Cons.IH [OF this p1] Cons.prems(3) show ?thesis by auto
  next
    case (Some e)
    with Cons.prems(1) b have "s' = s1" by simp
    with p1 show ?thesis by simp
  qed
qed

lemma flagged_by_refl: "flagged_by env flag st st"
  by (simp add: flagged_by_def)

lemma flagged_by_step:
  assumes "flagged_by env flag st t"
    and "evaluated t' = evaluated t \<or>
         (\<exists>name term. evaluated t' = evaluated t @ [(name, term, flag (target_dim env name term))])"
  shows "flagged_by env flag st t'"
  using assms by (auto simp: flagged_by_def)

lemma evaluation_step_flagged:
  assumes "evaluation_step model to_univ env ds_name term t = (r, t')"
  shows "evaluated t' = evaluated t \<or>
         (\<exists>name term. evaluated t' = evaluated t @ [(name, term, to_univ (target_dim env name term))])"
  using assms by (cases rule: evaluation_step_cases) auto

lemma evaluation_loop_flagged:
  assumes "evaluation_loop model to_univ env st = (r, st')"
  shows "flagged_by env to_univ st st'"
proof -
  have inner: "flagged_by env to_univ st t'"
    if "flagged_by env to_univ st t"
      and "for_each (\<lambda>term. evaluation_step model to_univ env d term) terms t = (r', t')"
    for d t r' t'
    using that(2,1)
    by (rule for_each_invariant) (blast intro: flagged_by_step dest: evaluation_step_flagged)
  from assms show ?thesis
    unfolding evaluation_loop_def
    by (rule for_each_invariant) (auto intro: flagged_by_refl inner)
qed

lemma inference_step_flagged:
  assumes "inference_step env term dataset_name t = (r, t')"
  shows "evaluated t' = evaluated t \<or>
         (\<exists>name term. evaluated t' = evaluated t @ [(name, term, 1 < target_dim env name term)])"
  using assms
  by (auto simp: inference_step_def perform_inference_def check_if_multivariate_def Let_def
      split: if_splits prod.splits)

lemma inference_loop_flagged:
  assumes "inference_loop env st = (r, st')"
  shows "flagged_by env (\<lambda>td. 1 < td) st st'"
proof -
  have inner: "flagged_by env (\<lambda>td. 1 < td) st t'"
    if "flagged_by env (\<lambda>td. 1 < td) st t"
      and "for_each (\<lambda>dataset_name. inference_step env term dataset_name) (all_datasets env) t
           = (r', t')"
    for "term" t r' t'
    using that(2,1)
    by (rule for_each_invariant) (blast intro: flagged_by_step dest: inference_step_flagged)
  from assms show ?thesis
    unfolding inference_loop_def
    by (rule for_each_invariant) (auto intro: flagged_by_refl inner)
qed

lemma moirai_set_step_eq:
  "moirai_set_step env d t st =
     (if t = ''medium'' \<or> t = ''long'' then (Some (AttributeError ''split''), st)
      else evaluation_step ''moirai_small'' moirai_to_univariate env d t st)"
  by (simp add: moirai_set_step_def set_split_def evaluation_step_def moirai_to_univariate_def
      Let_def split: sum.splits prod.splits)

lemma moirai_set_step_flagged:
  assumes "moirai_set_step env d t s = (r, s')"
  shows "evaluated s' = evaluated s \<or>
         (\<exists>name term. evaluated s'
            = evaluated s @ [(name, term, moirai_to_univariate (target_dim env name term))])"
proof (cases "t = ''medium'' \<or> t = ''long''")
  case True
  with assms show ?thesis by (simp add: moirai_set_step_eq)
next
  case False
  with assms have "evaluation_step ''moirai_small'' moirai_to_univariate env d t s = (r, s')"
    by (simp add: moirai_set_step_eq)
  then show ?thesis by (rule evaluation_step_flagged)
qed

lemma moirai_set_loop_flagged:
  assumes "moirai_set_loop env st = (r, st')"
  shows "flagged_by env moirai_to_univariate st st'"
proof -
  have inner: "flagged_by env moirai_to_univariate st t'"
    if "flagged_by env moirai_to_univariate st t"
      and "for_each (\<lambda>term. moirai_set_step env d term) terms t = (r', t')"
    for d t r' t'
    using that(2,1)
    by (rule for_each_invariant) (blast intro: flagged_by_step dest: moirai_set_step_flagged)
  from assms show ?thesis
    unfolding moirai_set_loop_def
    by (rule for_each_invariant) (auto intro: flagged_by_refl inner)
qed

text \<open>
  C8, as stated: in every notebook the evaluated dataset is constructed with
  \<^verbatim>\<open>to_univariate = True\<close> exactly when its target dimension is greater than 1. The
  Moirai notebook evaluates \<^verbatim>\<open>bizitobs_l2c/H\<close>, of target dimension 7, with the flag
  \<^verbatim>\<open>False\<close>.
\<close>

theorem moirai_multivariate_counterexample:
  "target_dim example_env ''bizitobs_l2c/H'' ''short'' = 7
   \<and> evaluated (snd (moirai_loop example_env example_state))
       = [(''m4_hourly'', ''short'', False), (''bizitobs_l2c/H'', ''short'', False),
          (''bizitobs_l2c/H'', ''medium'', False), (''bizitobs_l2c/H'', ''long'', False)]"
  by (simp add: moirai_loop_def evaluation_loop_def terms_def evaluation_step_def
      ds_key_freq_def get_default_def pretty_names_def
      index_def result_row_def metric_value_def fmetric_def getitem_def example_props_def
      example_results_def example_files_def open_append_def writerow_def lower_def
      example_env_def example_state_def moirai_to_univariate_def)

text \<open>
  C8, amended. In a run of the Chronos loop or of the inline feed-forward loop, complete
  or ended by an exception, every dataset evaluated is constructed with
  \<^verbatim>\<open>to_univariate = True\<close> exactly when its target dimension is not 1, which for a target
  dimension of at least 1 is: greater than 1. In a run of the inference loop of the
  feed-forward notebook it is constructed with \<^verbatim>\<open>True\<close> exactly when the target dimension
  is greater than 1. In a run of the Moirai loop, in either version of that notebook, it
  is always constructed with \<^verbatim>\<open>False\<close>. In no notebook is a dataset of target dimension 1
  requested with the conversion.
\<close>

theorem to_univariate_of_evaluated_datasets:
  "flagged_by env chronos_to_univariate st (snd (chronos_loop env st))
   \<and> flagged_by env chronos_to_univariate st (snd (feedforward_loop env st))
   \<and> flagged_by env (\<lambda>td. 1 < td) st (snd (inference_loop env st))
   \<and> flagged_by env moirai_to_univariate st (snd (moirai_loop env st))
   \<and> (1 \<le> td \<longrightarrow> chronos_to_univariate td = (1 < td))
   \<and> \<not> chronos_to_univariate 1 \<and> \<not> moirai_to_univariate td
   \<and> flagged_by env moirai_to_univariate st (snd (moirai_set_loop env st))"
proof -
  have "flagged_by env to_univ st (snd (evaluation_loop model to_univ env st))"
    for model to_univ
    using evaluation_loop_flagged [of model to_univ env st] by (metis prod.collapse)
  moreover have "flagged_by env (\<lambda>td. 1 < td) st (snd (inference_loop env st))"
    using inference_loop_flagged [of env st] by (metis prod.collapse)
  moreover have "flagged_by env moirai_to_univariate st (snd (moirai_set_loop env st))"
    using moirai_set_loop_flagged [of env st] by (metis prod.collapse)
  ultimately show ?thesis
    by (auto simp: chronos_loop_def feedforward_loop_def moirai_loop_def
        chronos_to_univariate_def moirai_to_univariate_def)
qed

lemma chronos_example:
  "evaluated (snd (chronos_loop example_env example_state))
   = [(''m4_hourly'', ''short'', False), (''bizitobs_l2c/H'', ''short'', True),
      (''bizitobs_l2c/H'', ''medium'', True), (''bizitobs_l2c/H'', ''long'', True)]"
  by (simp add: chronos_loop_def evaluation_loop_def terms_def evaluation_step_def
      ds_key_freq_def get_default_def pretty_names_def
      index_def result_row_def metric_value_def fmetric_def getitem_def example_props_def
      example_results_def example_files_def open_append_def writerow_def lower_def
      example_env_def example_state_def chronos_to_univariate_def)

theorem to_univariate_of_evaluated_datasets_witness:
  "(1::int) \<le> 7 \<and> chronos_to_univariate 7 = (1 < (7::int))
   \<and> flagged_by example_env chronos_to_univariate example_state
        (snd (chronos_loop example_env example_state))
   \<and> evaluated (snd (chronos_loop example_env example_state))
       = [(''m4_hourly'', ''short'', False), (''bizitobs_l2c/H'', ''short'', True),
          (''bizitobs_l2c/H'', ''medium'', True), (''bizitobs_l2c/H'', ''long'', True)]"
  using to_univariate_of_evaluated_datasets [of example_env example_state 7] chronos_example
  by simp

section \<open>The pairs a loop evaluates\<close>

lemma for_each_trace:
  fixes ev :: "'s \<Rightarrow> 'e list" and fr :: "'s \<Rightarrow> 'w list"
  assumes "for_each body xs s = (None, s')"
    and "\<And>x t t'. x \<in> set xs \<Longrightarrow> body x t = (None, t') \<Longrightarrow>
           \<exists>ws. ev t' = ev t @ E x \<and> fr t' = fr t @ ws \<and> list_all2 R (E x) ws"
  shows "\<exists>ws. ev s' = ev s @ concat (map E xs) \<and> fr s' = fr s @ ws
           \<and> list_all2 R (concat (map E xs)) ws"
  using assms
proof (induction xs arbitrary: s)
  case Nil
  then show ?case by simp
next
  case (Cons x xs)
  obtain r1 s1 where b: "body x s = (r1, s1)" by (cases "body x s")
  with Cons.prems(1) have r1: "r1 = None" by (cases r1) auto
  with Cons.prems(1) b have rest: "for_each body xs s1 = (None, s')" by simp
  from Cons.prems(2) [of x s s1] b r1 obtain ws1 where
    1: "ev s1 = ev s @ E x" "fr s1 = fr s @ ws1" "list_all2 R (E x) ws1" by auto
  from Cons.IH [OF rest] Cons.prems(2) obtain ws2 where
    2: "ev s' = ev s1 @ concat (map E xs)" "fr s' = fr s1 @ ws2"
      "list_all2 R (concat (map E xs)) ws2" by auto
  from 1 2 have "ev s' = ev s @ concat (map E (x # xs))" "fr s' = fr s @ (ws1 @ ws2)"
    "list_all2 R (concat (map E (x # xs))) (ws1 @ ws2)"
    by (auto intro: list_all2_appendI)
  then show ?case by blast
qed

lemma concat_map_if:
  "concat (map (\<lambda>x. if P x then [] else [f x]) xs) = map f (filter (\<lambda>x. \<not> P x) xs)"
  by (induction xs) auto

lemma skips_terms: "term \<in> set terms \<Longrightarrow> skips env ds_name term = (\<not> keeps env ds_name term)"
  by (auto simp: skips_def keeps_def terms_def)

lemma filter_kept_pairs:
  "concat (map (\<lambda>d. map (f d) (filter (\<lambda>t. \<not> skips env d t) terms)) ds)
   = map (\<lambda>(d, t). f d t) (filter (\<lambda>(d, t). keeps env d t) (List.product ds terms))"
proof (induction ds)
  case Nil
  show ?case by simp
next
  case (Cons d ds)
  have "filter (\<lambda>t. \<not> skips env d t) terms = filter (\<lambda>t. keeps env d t) terms"
    by (rule filter_cong) (simp_all add: skips_terms)
  then have "map (f d) (filter (\<lambda>t. \<not> skips env d t) terms)
      = map (\<lambda>(d, t). f d t) (filter (\<lambda>(d, t). keeps env d t) (map (Pair d) terms))"
    by (simp add: filter_map comp_def)
  with Cons show ?case by simp
qed

lemma evaluation_step_trace:
  assumes "evaluation_step model to_univ env d t st = (None, st')"
  shows "\<exists>ws. evaluated st'
               = evaluated st @ (if skips env d t then []
                                 else [(d, t, to_univ (target_dim env d t))])
           \<and> file_rows (files st') (csv_file_path env)
               = file_rows (files st) (csv_file_path env) @ ws
           \<and> list_all2 (\<lambda>(d, t, u) row. evaluation_row model to_univ env d t = Inr row)
                (if skips env d t then [] else [(d, t, to_univ (target_dim env d t))]) ws"
  using assms
proof (cases rule: evaluation_step_cases)
  case skipped
  then show ?thesis by simp
next
  case (written k f row)
  then have "evaluation_row model to_univ env d t = Inr row"
    by (simp add: evaluation_row_def)
  with written show ?thesis by (simp add: file_rows_def)
qed simp_all

lemma evaluation_loop_trace:
  assumes "evaluation_loop model to_univ env st = (None, st')"
  shows "\<exists>rows.
           evaluated st'
             = evaluated st
               @ map (\<lambda>(d, t). (d, t, to_univ (target_dim env d t)))
                   (filter (\<lambda>(d, t). keeps env d t) (List.product (all_datasets env) terms))
           \<and> file_rows (files st') (csv_file_path env)
               = file_rows (files st) (csv_file_path env) @ rows
           \<and> list_all2 (\<lambda>(d, t) row. evaluation_row model to_univ env d t = Inr row)
                (filter (\<lambda>(d, t). keeps env d t) (List.product (all_datasets env) terms)) rows"
proof -
  let ?R = "\<lambda>(d, t, u) row. evaluation_row model to_univ env d t = Inr row"
  let ?f = "\<lambda>d t. (d, t, to_univ (target_dim env d t))"
  let ?E = "\<lambda>d t. if skips env d t then [] else [?f d t]"
  let ?fr = "\<lambda>s. file_rows (files s) (csv_file_path env)"
  have inner: "\<exists>ws. evaluated t' = evaluated t @ concat (map (?E d) terms)
                 \<and> ?fr t' = ?fr t @ ws \<and> list_all2 ?R (concat (map (?E d) terms)) ws"
    if "for_each (\<lambda>term. evaluation_step model to_univ env d term) terms t = (None, t')"
    for d t t'
    using that by (rule for_each_trace) (rule evaluation_step_trace)
  from assms have "\<exists>ws. evaluated st'
                         = evaluated st
                           @ concat (map (\<lambda>d. concat (map (?E d) terms)) (all_datasets env))
                 \<and> ?fr st' = ?fr st @ ws
                 \<and> list_all2 ?R
                      (concat (map (\<lambda>d. concat (map (?E d) terms)) (all_datasets env))) ws"
    unfolding evaluation_loop_def by (rule for_each_trace) (rule inner)
  moreover have "concat (map (\<lambda>d. concat (map (?E d) terms)) (all_datasets env))
      = map (\<lambda>(d, t). ?f d t)
          (filter (\<lambda>(d, t). keeps env d t) (List.product (all_datasets env) terms))"
    by (simp only: concat_map_if filter_kept_pairs)
  ultimately show ?thesis
    by (auto simp: list_all2_map1 case_prod_unfold)
qed

lemma inference_step_trace:
  assumes "inference_step env t d st = (None, st')"
  shows "\<exists>ws. evaluated st'
               = evaluated st @ (if t \<noteq> ''short'' then []
                                 else [(d, t, check_if_multivariate env d t)])
           \<and> file_rows (files st') (csv_file_path env)
               = file_rows (files st) (csv_file_path env) @ ws
           \<and> list_all2 (\<lambda>(d, t, u) row. inference_row env d t = Inr row)
                (if t \<noteq> ''short'' then [] else [(d, t, check_if_multivariate env d t)]) ws"
proof (cases "t = ''short''")
  case False
  with assms show ?thesis by (simp add: inference_step_def)
next
  case True
  let ?u = "check_if_multivariate env d t"
  let ?st1 = "st\<lparr>evaluated := evaluated st @ [(d, t, ?u)]\<rparr>"
  have pi: "perform_inference env t d st = (evaluate_model env d t ?u, ?st1)"
    by (simp add: perform_inference_def Let_def)
  obtain fs where w: "write_to_csv (dataset_properties_map env) (evaluate_model env d t ?u)
      (csv_file_path env) t d (files ?st1) = (None, fs)" and st': "st' = ?st1\<lparr>files := fs\<rparr>"
    using assms True pi by (auto simp: inference_step_def split: prod.splits)
  from write_to_csv_returns [OF w] obtain cfg key row where
    r: "get_dataset_config (dataset_properties_map env) d t = Inr cfg"
      "get_dataset_key d = Inr key"
      "result_row (dataset_properties_map env) cfg ''feedforward'' (evaluate_model env d t ?u) key
        = Inr row"
      "fs = writerow (open_append (files ?st1) (csv_file_path env)) (csv_file_path env) row"
    by blast
  then have "inference_row env d t = Inr row" by (simp add: inference_row_def)
  with r(4) st' True show ?thesis by (simp add: append_row file_rows_def)
qed

lemma short_only:
  "concat (map (\<lambda>t. concat (map (\<lambda>d. if t \<noteq> ''short'' then [] else [f d t]) ds)) terms)
   = map (\<lambda>d. f d ''short'') ds"
proof -
  have "concat (map (\<lambda>d. [f d ''short'']) ds) = map (\<lambda>d. f d ''short'') ds"
    by (induction ds) auto
  then show ?thesis by (simp add: terms_def)
qed

lemma inference_loop_trace:
  assumes "inference_loop env st = (None, st')"
  shows "\<exists>rows.
           evaluated st'
             = evaluated st
               @ map (\<lambda>d. (d, ''short'', check_if_multivariate env d ''short''))
                   (all_datasets env)
           \<and> file_rows (files st') (csv_file_path env)
               = file_rows (files st) (csv_file_path env) @ rows
           \<and> list_all2 (\<lambda>d row. inference_row env d ''short'' = Inr row)
                (all_datasets env) rows"
proof -
  let ?R = "\<lambda>(d, t, u) row. inference_row env d t = Inr row"
  let ?f = "\<lambda>d t. (d, t, check_if_multivariate env d t)"
  let ?E = "\<lambda>t d. if t \<noteq> ''short'' then [] else [?f d t]"
  let ?fr = "\<lambda>s. file_rows (files s) (csv_file_path env)"
  have inner: "\<exists>ws. evaluated t' = evaluated t @ concat (map (?E tm) (all_datasets env))
                 \<and> ?fr t' = ?fr t @ ws
                 \<and> list_all2 ?R (concat (map (?E tm) (all_datasets env))) ws"
    if "for_each (\<lambda>dataset_name. inference_step env tm dataset_name) (all_datasets env) t
        = (None, t')"
    for tm t t'
    using that by (rule for_each_trace) (rule inference_step_trace)
  from assms have "\<exists>ws. evaluated st'
                         = evaluated st
                           @ concat (map (\<lambda>t. concat (map (?E t) (all_datasets env))) terms)
                 \<and> ?fr st' = ?fr st @ ws
                 \<and> list_all2 ?R
                      (concat (map (\<lambda>t. concat (map (?E t) (all_datasets env))) terms)) ws"
    unfolding inference_loop_def by (rule for_each_trace) (rule inner)
  moreover have "concat (map (\<lambda>t. concat (map (?E t) (all_datasets env))) terms)
      = map (\<lambda>d. ?f d ''short'') (all_datasets env)"
    by (rule short_only)
  ultimately show ?thesis
    by (auto simp: list_all2_map1)
qed

lemma for_each_completes:
  assumes "\<And>x t. x \<in> set xs \<Longrightarrow> fst (body x t) = None"
  shows "fst (for_each body xs s) = None"
  using assms
proof (induction xs arbitrary: s)
  case Nil
  show ?case by simp
next
  case (Cons x xs)
  obtain r1 s1 where b: "body x s = (r1, s1)" by (cases "body x s")
  with Cons.prems [of x s] have "r1 = None" by simp
  with b Cons.IH [of s1] Cons.prems show ?case by simp
qed

lemma evaluation_step_completes:
  assumes "skips env d t \<or> \<not> isl (evaluation_row model to_univ env d t)"
  shows "fst (evaluation_step model to_univ env d t st) = None"
proof -
  obtain r st' where s: "evaluation_step model to_univ env d t st = (r, st')"
    by (cases "evaluation_step model to_univ env d t st")
  from s have "r = None"
  proof (cases rule: evaluation_step_cases)
    case (unknown e)
    with assms show ?thesis by (simp add: evaluation_row_def)
  next
    case (raised k f e)
    with assms show ?thesis by (simp add: evaluation_row_def)
  qed simp_all
  with s show ?thesis by simp
qed

lemma kept_pairs_member:
  "(d, t) \<in> set (kept_pairs env) = (d \<in> set (all_datasets env) \<and> t \<in> set terms \<and> keeps env d t)"
  by (auto simp: kept_pairs_def)

lemma evaluation_loop_completes:
  assumes "list_all (\<lambda>(d, t). \<not> isl (evaluation_row model to_univ env d t)) (kept_pairs env)"
  shows "fst (evaluation_loop model to_univ env st) = None"
  unfolding evaluation_loop_def
proof (rule for_each_completes)
  fix d s assume d: "d \<in> set (all_datasets env)"
  show "fst (for_each (\<lambda>term. evaluation_step model to_univ env d term) terms s) = None"
  proof (rule for_each_completes)
    fix t s' assume t: "t \<in> set terms"
    show "fst (evaluation_step model to_univ env d t s') = None"
    proof (cases "skips env d t")
      case True
      then show ?thesis by (simp add: evaluation_step_completes)
    next
      case False
      with t have "keeps env d t" by (simp add: skips_terms)
      with d t have "(d, t) \<in> set (kept_pairs env)" by (simp add: kept_pairs_member)
      with assms have "\<not> isl (evaluation_row model to_univ env d t)"
        by (auto simp: list_all_iff)
      then show ?thesis by (simp add: evaluation_step_completes)
    qed
  qed
qed

lemma perform_inference_eq:
  "perform_inference env t d st
   = (evaluate_model env d t (check_if_multivariate env d t),
      st\<lparr>evaluated := evaluated st @ [(d, t, check_if_multivariate env d t)]\<rparr>)"
  by (simp add: perform_inference_def Let_def)

lemma inference_step_completes:
  assumes "t \<noteq> ''short'' \<or> \<not> isl (inference_row env d t)"
  shows "fst (inference_step env t d st) = None"
  using assms
  by (auto simp: inference_step_def perform_inference_eq inference_row_def write_to_csv_def
      Let_def split: sum.splits prod.splits)

lemma inference_loop_completes:
  assumes "list_all (\<lambda>d. \<not> isl (inference_row env d ''short'')) (all_datasets env)"
  shows "fst (inference_loop env st) = None"
  unfolding inference_loop_def
proof (rule for_each_completes)
  fix t s
  show "fst (for_each (\<lambda>dataset_name. inference_step env t dataset_name) (all_datasets env) s)
        = None"
  proof (rule for_each_completes)
    fix d s' assume "d \<in> set (all_datasets env)"
    with assms have "\<not> isl (inference_row env d ''short'')" by (auto simp: list_all_iff)
    then show "fst (inference_step env t d s') = None"
      by (cases "t = ''short''") (simp_all add: inference_step_completes)
  qed
qed

lemma fold_append:
  "fold (\<lambda>x acc. acc @ g x) xs acc0 = acc0 @ concat (map g xs)"
  by (induction xs arbitrary: acc0) auto

lemma combine_step_append:
  "t \<in> set terms \<Longrightarrow>
   combine_step env d t combined
   = combined @ (if skips env d t then [] else [(d, t, check_if_multivariate env d t)])"
  by (auto simp: combine_step_def skips_def terms_def Let_def)

lemma combine_datasets_kept:
  "combine_datasets env
   = map (\<lambda>(d, t). (d, t, check_if_multivariate env d t)) (kept_pairs env)"
proof -
  let ?E = "\<lambda>d t. if skips env d t then [] else [(d, t, check_if_multivariate env d t)]"
  have inner: "fold (\<lambda>term. combine_step env d term) terms acc
               = acc @ concat (map (?E d) terms)" for d acc
  proof -
    have "fold (\<lambda>term. combine_step env d term) terms acc
          = fold (\<lambda>t acc. acc @ ?E d t) terms acc"
      by (rule fold_cong) (auto simp: combine_step_append)
    then show ?thesis by (simp only: fold_append)
  qed
  have "fold (combine_step env d) terms = (\<lambda>acc. acc @ concat (map (?E d) terms))" for d
    by (rule ext) (rule inner)
  then have "combine_datasets env
        = fold (\<lambda>d acc. acc @ concat (map (?E d) terms)) (all_datasets env) []"
    by (simp add: combine_datasets_def)
  also have "\<dots> = concat (map (\<lambda>d. concat (map (?E d) terms)) (all_datasets env))"
    by (simp only: fold_append append_Nil)
  also have "\<dots> = map (\<lambda>(d, t). (d, t, check_if_multivariate env d t)) (kept_pairs env)"
    by (simp only: concat_map_if filter_kept_pairs kept_pairs_def)
  finally show ?thesis .
qed

text \<open>
  C2, amended. Where \<^verbatim>\<open>med_long_datasets\<close> is a string (the Chronos notebook, the first
  version of the Moirai notebook, the inline cell of the feed-forward notebook) and the row
  of every kept pair can be built (its key is in the properties map and the results have
  the eleven metric columns), the inline evaluation loop completes; it has then called
  \<^verbatim>\<open>evaluate_model\<close> once for each pair of a dataset and a term whose term is \<^verbatim>\<open>short\<close> or
  whose dataset is in the medium-to-long list, in the order of the pairs with the datasets
  first, for no other pair, and has appended to the result file exactly the rows of these
  pairs, in the same order. Under the same condition on its rows the inference loop of the
  feed-forward notebook completes and has evaluated every dataset for the term \<^verbatim>\<open>short\<close>
  only, in the order of the datasets, and appended exactly their rows.
  \<^verbatim>\<open>combine_datasets\<close> collects the data of the kept pairs, evaluates nothing and writes no
  row. The statement is not about the second version of the Moirai notebook.
\<close>

theorem evaluation_loops_evaluate_kept_pairs:
  "(list_all (\<lambda>(d, t). \<not> isl (evaluation_row model to_univ env d t)) (kept_pairs env) \<longrightarrow>
      (\<exists>st' rows.
         evaluation_loop model to_univ env st = (None, st')
         \<and> evaluated st'
             = evaluated st
               @ map (\<lambda>(d, t). (d, t, to_univ (target_dim env d t))) (kept_pairs env)
         \<and> file_rows (files st') (csv_file_path env)
             = file_rows (files st) (csv_file_path env) @ rows
         \<and> list_all2 (\<lambda>(d, t) row. evaluation_row model to_univ env d t = Inr row)
              (kept_pairs env) rows))
   \<and> (list_all (\<lambda>d. \<not> isl (inference_row env d ''short'')) (all_datasets env) \<longrightarrow>
        (\<exists>st' rows.
           inference_loop env st = (None, st')
           \<and> evaluated st'
               = evaluated st
                 @ map (\<lambda>d. (d, ''short'', check_if_multivariate env d ''short''))
                     (all_datasets env)
           \<and> file_rows (files st') (csv_file_path env)
               = file_rows (files st) (csv_file_path env) @ rows
           \<and> list_all2 (\<lambda>d row. inference_row env d ''short'' = Inr row)
                (all_datasets env) rows))
   \<and> combine_datasets env
       = map (\<lambda>(d, t). (d, t, check_if_multivariate env d t)) (kept_pairs env)"
proof (intro conjI impI)
  assume "list_all (\<lambda>(d, t). \<not> isl (evaluation_row model to_univ env d t)) (kept_pairs env)"
  from evaluation_loop_completes [OF this, of st]
  obtain st' where "evaluation_loop model to_univ env st = (None, st')"
    by (cases "evaluation_loop model to_univ env st") auto
  with evaluation_loop_trace [OF this]
  show "\<exists>st' rows.
         evaluation_loop model to_univ env st = (None, st')
         \<and> evaluated st'
             = evaluated st
               @ map (\<lambda>(d, t). (d, t, to_univ (target_dim env d t))) (kept_pairs env)
         \<and> file_rows (files st') (csv_file_path env)
             = file_rows (files st) (csv_file_path env) @ rows
         \<and> list_all2 (\<lambda>(d, t) row. evaluation_row model to_univ env d t = Inr row)
              (kept_pairs env) rows"
    unfolding kept_pairs_def by blast
next
  assume "list_all (\<lambda>d. \<not> isl (inference_row env d ''short'')) (all_datasets env)"
  from inference_loop_completes [OF this, of st]
  obtain st' where "inference_loop env st = (None, st')"
    by (cases "inference_loop env st") auto
  with inference_loop_trace [OF this]
  show "\<exists>st' rows.
           inference_loop env st = (None, st')
           \<and> evaluated st'
               = evaluated st
                 @ map (\<lambda>d. (d, ''short'', check_if_multivariate env d ''short''))
                     (all_datasets env)
           \<and> file_rows (files st') (csv_file_path env)
               = file_rows (files st) (csv_file_path env) @ rows
           \<and> list_all2 (\<lambda>d row. inference_row env d ''short'' = Inr row)
                (all_datasets env) rows"
    by blast
next
  show "combine_datasets env
       = map (\<lambda>(d, t). (d, t, check_if_multivariate env d t)) (kept_pairs env)"
    by (rule combine_datasets_kept)
qed

text \<open>
  The loop of the second version of the Moirai notebook ends at the first term that is not
  \<^verbatim>\<open>short\<close>, with the exception of \<^verbatim>\<open>split\<close> on a set: on the example it has evaluated one
  pair.
\<close>

lemma moirai_set_loop_example:
  "fst (moirai_set_loop example_env example_state) = Some (AttributeError ''split'')
   \<and> evaluated (snd (moirai_set_loop example_env example_state))
       = [(''m4_hourly'', ''short'', False)]"
  by (simp add: moirai_set_loop_def moirai_set_step_def set_split_def terms_def
      ds_key_freq_def get_default_def pretty_names_def
      index_def result_row_def metric_value_def fmetric_def getitem_def example_props_def
      example_results_def example_files_def open_append_def writerow_def lower_def
      example_env_def example_state_def)

lemma example_kept_pairs:
  "kept_pairs example_env
   = [(''m4_hourly'', ''short''), (''bizitobs_l2c/H'', ''short''),
      (''bizitobs_l2c/H'', ''medium''), (''bizitobs_l2c/H'', ''long'')]"
  by (simp add: kept_pairs_def keeps_def example_env_def terms_def)

lemma example_rows_exist:
  "list_all (\<lambda>(d, t). \<not> isl (evaluation_row ''chronos_bolt_base'' chronos_to_univariate
                                 example_env d t))
     (kept_pairs example_env)"
  unfolding example_kept_pairs
  by (simp add: evaluation_row_def
      ds_key_freq_def get_default_def pretty_names_def
      index_def result_row_def metric_value_def fmetric_def getitem_def example_props_def
      example_results_def lower_def example_env_def chronos_to_univariate_def)

lemma example_inference_rows_exist:
  "list_all (\<lambda>d. \<not> isl (inference_row example_env d ''short'')) (all_datasets example_env)"
  by (simp add: inference_row_def get_dataset_config_def get_dataset_freq_def
      get_dataset_key_def check_if_multivariate_def
      index_def result_row_def metric_value_def fmetric_def getitem_def example_props_def
      example_results_def lower_def example_env_def)

text \<open>
  C2, as stated: a pair is evaluated and gets a row if and only if its term is \<^verbatim>\<open>short\<close>
  or its dataset is in the medium-to-long list. The inference loop of the feed-forward
  notebook leaves out every pair whose term is not \<^verbatim>\<open>short\<close>: it completes on the example
  without evaluating \<^verbatim>\<open>bizitobs_l2c/H\<close> for the term \<^verbatim>\<open>medium\<close>, and adds two rows.
\<close>

theorem inference_loop_short_only_counterexample:
  "(''bizitobs_l2c/H'', ''medium'') \<in> set (List.product (all_datasets example_env) terms)
   \<and> ''bizitobs_l2c/H'' \<in> set (med_long_datasets example_env)
   \<and> fst (inference_loop example_env example_state) = None
   \<and> evaluated (snd (inference_loop example_env example_state))
       = [(''m4_hourly'', ''short'', False), (''bizitobs_l2c/H'', ''short'', True)]
   \<and> length (file_rows (files (snd (inference_loop example_env example_state)))
               ''results/feedforward.csv'') = 3"
  by (simp add: inference_loop_def inference_step_def perform_inference_def
      check_if_multivariate_def write_to_csv_def terms_def
      get_dataset_config_def get_dataset_freq_def get_dataset_key_def
      index_def result_row_def metric_value_def fmetric_def getitem_def example_props_def
      example_results_def example_files_def open_append_def writerow_def lower_def
      example_env_def example_state_def file_rows_def)

theorem evaluation_loops_evaluate_kept_pairs_witness:
  "list_all (\<lambda>(d, t). \<not> isl (evaluation_row ''chronos_bolt_base'' chronos_to_univariate
                                 example_env d t))
     (kept_pairs example_env)
   \<and> list_all (\<lambda>d. \<not> isl (inference_row example_env d ''short'')) (all_datasets example_env)
   \<and> (\<exists>st' rows.
         chronos_loop example_env example_state = (None, st')
         \<and> evaluated st'
             = [(''m4_hourly'', ''short'', False), (''bizitobs_l2c/H'', ''short'', True),
                (''bizitobs_l2c/H'', ''medium'', True), (''bizitobs_l2c/H'', ''long'', True)]
         \<and> file_rows (files st') ''results/feedforward.csv'' = header # rows
         \<and> length rows = 4)
   \<and> (\<exists>st' rows.
         inference_loop example_env example_state = (None, st')
         \<and> evaluated st'
             = [(''m4_hourly'', ''short'', False), (''bizitobs_l2c/H'', ''short'', True)]
         \<and> file_rows (files st') ''results/feedforward.csv'' = header # rows
         \<and> length rows = 2)"
proof -
  note t = evaluation_loops_evaluate_kept_pairs [of "''chronos_bolt_base''"
      chronos_to_univariate example_env example_state]
  from t example_rows_exist obtain st' rows where
    a: "chronos_loop example_env example_state = (None, st')"
      "evaluated st' = evaluated example_state
         @ map (\<lambda>(d, t). (d, t, chronos_to_univariate (target_dim example_env d t)))
             (kept_pairs example_env)"
      "file_rows (files st') (csv_file_path example_env)
         = file_rows (files example_state) (csv_file_path example_env) @ rows"
      "list_all2 (\<lambda>(d, t) row. evaluation_row ''chronos_bolt_base'' chronos_to_univariate
                                  example_env d t = Inr row) (kept_pairs example_env) rows"
    unfolding chronos_loop_def by blast
  from a(4) have "length rows = 4"
    by (simp add: list_all2_lengthD [symmetric] example_kept_pairs)
  with a(1,3) a(2) [unfolded example_kept_pairs] have c: "\<exists>st' rows.
         chronos_loop example_env example_state = (None, st')
         \<and> evaluated st'
             = [(''m4_hourly'', ''short'', False), (''bizitobs_l2c/H'', ''short'', True),
                (''bizitobs_l2c/H'', ''medium'', True), (''bizitobs_l2c/H'', ''long'', True)]
         \<and> file_rows (files st') ''results/feedforward.csv'' = header # rows
         \<and> length rows = 4"
    by (simp add: example_state_def example_env_def example_files_def
        file_rows_def chronos_to_univariate_def)
  from t example_inference_rows_exist obtain st'' rows' where
    b: "inference_loop example_env example_state = (None, st'')"
      "evaluated st'' = evaluated example_state
         @ map (\<lambda>d. (d, ''short'', check_if_multivariate example_env d ''short''))
             (all_datasets example_env)"
      "file_rows (files st'') (csv_file_path example_env)
         = file_rows (files example_state) (csv_file_path example_env) @ rows'"
      "list_all2 (\<lambda>d row. inference_row example_env d ''short'' = Inr row)
         (all_datasets example_env) rows'"
    by blast
  from b(4) have "length rows' = 2"
    by (simp add: list_all2_lengthD [symmetric] example_env_def)
  with b(1,2,3) have d: "\<exists>st' rows.
         inference_loop example_env example_state = (None, st')
         \<and> evaluated st'
             = [(''m4_hourly'', ''short'', False), (''bizitobs_l2c/H'', ''short'', True)]
         \<and> file_rows (files st') ''results/feedforward.csv'' = header # rows
         \<and> length rows = 2"
    by (simp add: example_state_def example_env_def example_files_def
        file_rows_def check_if_multivariate_def)
  from c d example_rows_exist example_inference_rows_exist show ?thesis by blast
qed

end
